theory Spec2Isabelle
  imports Complex_Main "HOL-Library.AList" "HOL-Library.Char_ord" "HOL-Library.List_Lexorder"
begin

section \<open>Point clouds of polyscope: derived geometry\<close>

subsection \<open>Numbers\<close>

text \<open>
  The coordinates of \<^verbatim>\<open>glm::vec3\<close> are IEEE binary32 values and \<^verbatim>\<open>lengthScale\<close>
  computes in binary64. The model keeps the special values the code relies on
  (\<^verbatim>\<open>std::numeric_limits<float>::infinity()\<close> and the NaN that \<open>inf + (-inf)\<close> yields)
  and takes the finite values as exact reals: no rounding, no overflow, one zero.
  The theorems below evaluate the code only at small integers and halves, which
  binary32 represents exactly and on which every operation used is exact.
\<close>

datatype fl = Finite real | PlusInf | MinusInf | NaN

fun fl_neg :: "fl \<Rightarrow> fl" where
  "fl_neg (Finite a) = Finite (- a)"
| "fl_neg PlusInf = MinusInf"
| "fl_neg MinusInf = PlusInf"
| "fl_neg NaN = NaN"

fun fl_add :: "fl \<Rightarrow> fl \<Rightarrow> fl" where
  "fl_add NaN _ = NaN"
| "fl_add _ NaN = NaN"
| "fl_add (Finite a) (Finite b) = Finite (a + b)"
| "fl_add PlusInf MinusInf = NaN"
| "fl_add MinusInf PlusInf = NaN"
| "fl_add PlusInf _ = PlusInf"
| "fl_add _ PlusInf = PlusInf"
| "fl_add MinusInf _ = MinusInf"
| "fl_add _ MinusInf = MinusInf"

definition fl_sub :: "fl \<Rightarrow> fl \<Rightarrow> fl" where
  "fl_sub a b = fl_add a (fl_neg b)"

text \<open>The sign of a value: \<open>None\<close> for NaN, otherwise \<open>-1\<close>, \<open>0\<close> or \<open>1\<close>.\<close>

fun fl_sign :: "fl \<Rightarrow> int option" where
  "fl_sign NaN = None"
| "fl_sign PlusInf = Some 1"
| "fl_sign MinusInf = Some (- 1)"
| "fl_sign (Finite a) = Some (if a < 0 then - 1 else if a = 0 then 0 else 1)"

fun fl_mul :: "fl \<Rightarrow> fl \<Rightarrow> fl" where
  "fl_mul (Finite a) (Finite b) = Finite (a * b)"
| "fl_mul a b =
     (case (fl_sign a, fl_sign b) of
        (Some sa, Some sb) \<Rightarrow>
          (if sa * sb = 0 then NaN else if 0 < sa * sb then PlusInf else MinusInf)
      | _ \<Rightarrow> NaN)"

text \<open>The comparison \<^verbatim>\<open>a < b\<close>: false as soon as one side is NaN.\<close>

fun fl_less :: "fl \<Rightarrow> fl \<Rightarrow> bool" where
  "fl_less NaN _ = False"
| "fl_less _ NaN = False"
| "fl_less (Finite a) (Finite b) = (a < b)"
| "fl_less MinusInf MinusInf = False"
| "fl_less MinusInf _ = True"
| "fl_less _ MinusInf = False"
| "fl_less PlusInf _ = False"
| "fl_less _ PlusInf = True"

text \<open>\<^verbatim>\<open>std::min(a, b)\<close> is \<^verbatim>\<open>(b < a) ? b : a\<close> and \<^verbatim>\<open>std::max(a, b)\<close> is
  \<^verbatim>\<open>(a < b) ? b : a\<close>.\<close>

definition std_min :: "fl \<Rightarrow> fl \<Rightarrow> fl" where
  "std_min a b = (if fl_less b a then b else a)"

definition std_max :: "fl \<Rightarrow> fl \<Rightarrow> fl" where
  "std_max a b = (if fl_less a b then b else a)"

fun fl_sqrt :: "fl \<Rightarrow> fl" where
  "fl_sqrt (Finite a) = (if a < 0 then NaN else Finite (sqrt a))"
| "fl_sqrt PlusInf = PlusInf"
| "fl_sqrt MinusInf = NaN"
| "fl_sqrt NaN = NaN"

subsection \<open>Vectors and matrices\<close>

record vec3 =
  x :: fl
  y :: fl
  z :: fl

record vec4 =
  x4 :: fl
  y4 :: fl
  z4 :: fl
  w4 :: fl

text \<open>A \<^verbatim>\<open>glm::mat4\<close> is stored by columns.\<close>

record mat4 =
  col0 :: vec4
  col1 :: vec4
  col2 :: vec4
  col3 :: vec4

definition mk_vec3 :: "fl \<Rightarrow> fl \<Rightarrow> fl \<Rightarrow> vec3" where
  "mk_vec3 a b c = \<lparr>x = a, y = b, z = c\<rparr>"

definition mk_vec4 :: "fl \<Rightarrow> fl \<Rightarrow> fl \<Rightarrow> fl \<Rightarrow> vec4" where
  "mk_vec4 a b c d = \<lparr>x4 = a, y4 = b, z4 = c, w4 = d\<rparr>"

definition vec3_add :: "vec3 \<Rightarrow> vec3 \<Rightarrow> vec3" where
  "vec3_add u v = mk_vec3 (fl_add (x u) (x v)) (fl_add (y u) (y v)) (fl_add (z u) (z v))"

definition vec3_sub :: "vec3 \<Rightarrow> vec3 \<Rightarrow> vec3" where
  "vec3_sub u v = mk_vec3 (fl_sub (x u) (x v)) (fl_sub (y u) (y v)) (fl_sub (z u) (z v))"

definition vec3_neg :: "vec3 \<Rightarrow> vec3" where
  "vec3_neg v = mk_vec3 (fl_neg (x v)) (fl_neg (y v)) (fl_neg (z v))"

text \<open>The two products of a vector and a scalar: \<^verbatim>\<open>v * s\<close> and \<^verbatim>\<open>s * v\<close>.\<close>

definition vec3_mul_scalar :: "vec3 \<Rightarrow> fl \<Rightarrow> vec3" where
  "vec3_mul_scalar v s = mk_vec3 (fl_mul (x v) s) (fl_mul (y v) s) (fl_mul (z v) s)"

definition scalar_mul_vec3 :: "fl \<Rightarrow> vec3 \<Rightarrow> vec3" where
  "scalar_mul_vec3 s v = mk_vec3 (fl_mul s (x v)) (fl_mul s (y v)) (fl_mul s (z v))"

definition vec4_add :: "vec4 \<Rightarrow> vec4 \<Rightarrow> vec4" where
  "vec4_add u v =
     mk_vec4 (fl_add (x4 u) (x4 v)) (fl_add (y4 u) (y4 v)) (fl_add (z4 u) (z4 v))
       (fl_add (w4 u) (w4 v))"

definition vec4_scale :: "vec4 \<Rightarrow> fl \<Rightarrow> vec4" where
  "vec4_scale v s = mk_vec4 (fl_mul (x4 v) s) (fl_mul (y4 v) s) (fl_mul (z4 v) s) (fl_mul (w4 v) s)"

text \<open>\<^verbatim>\<open>glm::length2(v)\<close> is the dot product of \<open>v\<close> with itself.\<close>

definition length2 :: "vec3 \<Rightarrow> fl" where
  "length2 v =
     fl_add (fl_add (fl_mul (x v) (x v)) (fl_mul (y v) (y v))) (fl_mul (z v) (z v))"

text \<open>
  The product \<^verbatim>\<open>m * v\<close> of a \<^verbatim>\<open>glm::mat4\<close> and a \<^verbatim>\<open>glm::vec4\<close> is the combination of the
  columns of \<open>m\<close> with the coordinates of \<open>v\<close>, summed as glm does:
  \<open>(m[0] * v.x + m[1] * v.y) + (m[2] * v.z + m[3] * v.w)\<close>.
\<close>

definition mat4_mul_vec4 :: "mat4 \<Rightarrow> vec4 \<Rightarrow> vec4" where
  "mat4_mul_vec4 m v =
     vec4_add
       (vec4_add (vec4_scale (col0 m) (x4 v)) (vec4_scale (col1 m) (y4 v)))
       (vec4_add (vec4_scale (col2 m) (z4 v)) (vec4_scale (col3 m) (w4 v)))"

text \<open>\<^verbatim>\<open>glm::vec3(objectTransform * glm::vec4(rawP, 1.0))\<close>: the point in homogeneous
  coordinates, mapped, and cut back to its first three coordinates.\<close>

definition transformPoint :: "mat4 \<Rightarrow> vec3 \<Rightarrow> vec3" where
  "transformPoint m rawP =
     (let v = mat4_mul_vec4 m (mk_vec4 (x rawP) (y rawP) (z rawP) (Finite 1))
      in mk_vec3 (x4 v) (y4 v) (z4 v))"

text \<open>
  Modelled from the spec: \<^verbatim>\<open>componentwiseMin\<close> and \<^verbatim>\<open>componentwiseMax\<close> are helpers of the
  repository that the sources at hand only call; the spec has the bounding box fold
  "with componentwise min/max".
\<close>

definition componentwiseMin :: "vec3 \<Rightarrow> vec3 \<Rightarrow> vec3" where
  "componentwiseMin vA vB =
     mk_vec3 (std_min (x vA) (x vB)) (std_min (y vA) (y vB)) (std_min (z vA) (z vB))"

definition componentwiseMax :: "vec3 \<Rightarrow> vec3 \<Rightarrow> vec3" where
  "componentwiseMax vA vB =
     mk_vec3 (std_max (x vA) (x vB)) (std_max (y vA) (y vB)) (std_max (z vA) (z vB))"

definition identity_mat4 :: mat4 where
  "identity_mat4 =
     \<lparr>col0 = mk_vec4 (Finite 1) (Finite 0) (Finite 0) (Finite 0),
      col1 = mk_vec4 (Finite 0) (Finite 1) (Finite 0) (Finite 0),
      col2 = mk_vec4 (Finite 0) (Finite 0) (Finite 1) (Finite 0),
      col3 = mk_vec4 (Finite 0) (Finite 0) (Finite 0) (Finite 1)\<rparr>"

text \<open>The translation by \<open>(a, b, c)\<close>, as \<^verbatim>\<open>glm::translate\<close> builds it.\<close>

definition translation_mat4 :: "fl \<Rightarrow> fl \<Rightarrow> fl \<Rightarrow> mat4" where
  "translation_mat4 a b c = identity_mat4\<lparr>col3 := mk_vec4 a b c (Finite 1)\<rparr>"

subsection \<open>Bounding box and length scale\<close>

text \<open>
  Both functions read two members of the structure only, \<^verbatim>\<open>points\<close> and
  \<^verbatim>\<open>objectTransform\<close>, which they take here as arguments.

  The loop of \<^verbatim>\<open>boundingBox\<close> carries the pair \<open>(min, max)\<close> through the points.
\<close>

fun boundingBox_loop :: "mat4 \<Rightarrow> vec3 list \<Rightarrow> vec3 \<times> vec3 \<Rightarrow> vec3 \<times> vec3" where
  "boundingBox_loop T [] (mn, mx) = (mn, mx)"
| "boundingBox_loop T (rawP # ps) (mn, mx) =
     (let p = transformPoint T rawP
      in boundingBox_loop T ps (componentwiseMin mn p, componentwiseMax mx p))"

definition boundingBox :: "mat4 \<Rightarrow> vec3 list \<Rightarrow> vec3 \<times> vec3" where
  "boundingBox T pts =
     (let mn = vec3_mul_scalar (mk_vec3 (Finite 1) (Finite 1) (Finite 1)) PlusInf;
          mx = vec3_mul_scalar (vec3_neg (mk_vec3 (Finite 1) (Finite 1) (Finite 1))) PlusInf
      in boundingBox_loop T pts (mn, mx))"

text \<open>The loop of \<^verbatim>\<open>lengthScale\<close>: it runs over the points as they are stored.\<close>

fun lengthScale_loop :: "vec3 \<Rightarrow> vec3 list \<Rightarrow> fl \<Rightarrow> fl" where
  "lengthScale_loop center [] acc = acc"
| "lengthScale_loop center (p # ps) acc =
     lengthScale_loop center ps (std_max acc (length2 (vec3_sub p center)))"

definition lengthScale :: "mat4 \<Rightarrow> vec3 list \<Rightarrow> fl" where
  "lengthScale T pts =
     (let bound = boundingBox T pts;
          center = scalar_mul_vec3 (Finite (1/2)) (vec3_add (fst bound) (snd bound))
      in fl_mul (Finite 2) (fl_sqrt (lengthScale_loop center pts (Finite 0))))"

text \<open>
  The length scale in the words of the spec: "twice the maximum Euclidean distance from
  the bounding-box center to any transformed point". It differs from \<open>lengthScale\<close> in
  one place: the distances are taken from the transformed points.
\<close>

definition lengthScale_spec :: "mat4 \<Rightarrow> vec3 list \<Rightarrow> fl" where
  "lengthScale_spec T pts =
     (let bound = boundingBox T pts;
          center = scalar_mul_vec3 (Finite (1/2)) (vec3_add (fst bound) (snd bound))
      in fl_mul (Finite 2)
           (fl_sqrt (lengthScale_loop center (map (transformPoint T) pts) (Finite 0))))"


section \<open>The quantity registry and the render pass\<close>

subsection \<open>State\<close>

text \<open>
  A quantity is an object on the C++ heap that the structure reaches through a pointer.
  Of \<^verbatim>\<open>PointCloudQuantity\<close> the model keeps the name, the \<^verbatim>\<open>enabled\<close> flag and the
  dynamic type: \<open>q_drawsPoints\<close> tells that the object is a
  \<^verbatim>\<open>PointCloudQuantityThatDrawsPoints\<close>.
\<close>

type_synonym addr = nat

record quantity =
  q_name :: string
  q_enabled :: bool
  q_drawsPoints :: bool

text \<open>
  A GPU program is opaque. The model tells the programs apart by their origin: the
  default sphere program that \<^verbatim>\<open>prepare\<close> builds, the program that the
  \<^verbatim>\<open>createProgram\<close> of a quantity returns, and the pick program.
\<close>

datatype program = DefaultProgram | QuantityProgram addr | PickProgram

text \<open>
  Every write to a member or to a quantity and every call to a collaborator (GPU
  program, quantity hook, error channel) is recorded, in the order of execution.
\<close>

datatype event =
    EvErase string                 \<comment> \<open>\<^verbatim>\<open>quantities.erase(name)\<close>\<close>
  | EvStore string addr            \<comment> \<open>\<^verbatim>\<open>quantities[name] = q\<close>\<close>
  | EvSetEnabled addr bool         \<comment> \<open>\<^verbatim>\<open>q->enabled = b\<close>\<close>
  | EvSetActive "addr option"      \<comment> \<open>\<^verbatim>\<open>activePointQuantity = q\<close>\<close>
  | EvDestroy addr                 \<comment> \<open>\<^verbatim>\<open>delete q\<close>\<close>
  | EvDeleteProgram program        \<comment> \<open>the program released by \<^verbatim>\<open>safeDelete(program)\<close>\<close>
  | EvError string                 \<comment> \<open>\<^verbatim>\<open>polyscope::error(msg)\<close>\<close>
  | EvNewProgram program           \<comment> \<open>\<^verbatim>\<open>new gl::GLProgram(...)\<close>\<close>
  | EvCreateProgram addr           \<comment> \<open>\<^verbatim>\<open>q->createProgram()\<close>\<close>
  | EvSetMaterial program string   \<comment> \<open>\<^verbatim>\<open>setMaterialForProgram(p, name)\<close>\<close>
  | EvSetAttribute program string  \<comment> \<open>\<^verbatim>\<open>p->setAttribute(name, data)\<close>\<close>
  | EvSetUniform program string    \<comment> \<open>\<^verbatim>\<open>p->setUniform(name, value)\<close>\<close>
  | EvSetProgramValues addr program \<comment> \<open>\<^verbatim>\<open>q->setProgramValues(p)\<close>\<close>
  | EvProgramDraw program          \<comment> \<open>\<^verbatim>\<open>p->draw()\<close>\<close>
  | EvQuantityDraw addr            \<comment> \<open>\<^verbatim>\<open>q->draw()\<close>\<close>

text \<open>
  The members of \<^verbatim>\<open>PointCloud\<close> (with \<^verbatim>\<open>objectTransform\<close> of its base class), followed by
  the two parts of the world around it: the heap of the quantity objects and the record
  of events. \<^verbatim>\<open>std::map<std::string, PointCloudQuantity*>\<close> is an association list with
  distinct keys in increasing order, the order in which the map is iterated.
\<close>

record point_cloud =
  points :: "vec3 list"
  enabled :: bool
  objectTransform :: mat4
  quantities :: "(string \<times> addr) list"
  initialBaseColor :: vec3
  pointColor :: vec3
  pointRadius :: fl
  program :: "program option"
  pickProgram :: "program option"
  activePointQuantity :: "addr option"
  heap :: "addr \<rightharpoonup> quantity"
  trace :: "event list"

text \<open>
  Reading or writing through a pointer to a destroyed object is undefined behaviour in
  C++; the model stops with \<open>UseAfterFree\<close>. The other errors are raised by \<open>step\<close>
  below for calls that the source cannot receive.
\<close>

datatype error =
    UseAfterFree addr
  | NullProgram
  | AddressInUse addr
  | NotDrawsPoints addr
  | NotRegistered addr

definition and_then :: "error + 'a \<Rightarrow> ('a \<Rightarrow> error + 'b) \<Rightarrow> error + 'b" where
  "and_then m f = (case m of Inl e \<Rightarrow> Inl e | Inr v \<Rightarrow> f v)"

definition emit :: "event list \<Rightarrow> point_cloud \<Rightarrow> point_cloud" where
  "emit evs s = s\<lparr>trace := trace s @ evs\<rparr>"

definition deref :: "point_cloud \<Rightarrow> addr \<Rightarrow> error + quantity" where
  "deref s a = (case heap s a of None \<Rightarrow> Inl (UseAfterFree a) | Some obj \<Rightarrow> Inr obj)"

text \<open>The statement \<^verbatim>\<open>q->enabled = b\<close>.\<close>

definition set_enabled :: "addr \<Rightarrow> bool \<Rightarrow> point_cloud \<Rightarrow> error + point_cloud" where
  "set_enabled q b s =
     and_then (deref s q) (\<lambda>obj.
       Inr (emit [EvSetEnabled q b] (s\<lparr>heap := (heap s)(q \<mapsto> obj\<lparr>q_enabled := b\<rparr>)\<rparr>)))"

text \<open>The statement \<^verbatim>\<open>delete q\<close>.\<close>

definition destroy :: "addr \<Rightarrow> point_cloud \<Rightarrow> error + point_cloud" where
  "destroy q s =
     and_then (deref s q) (\<lambda>_. Inr (emit [EvDestroy q] (s\<lparr>heap := (heap s)(q := None)\<rparr>)))"

text \<open>The statement \<^verbatim>\<open>quantities[k] = v\<close> on the ordered map.\<close>

definition map_store :: "string \<Rightarrow> addr \<Rightarrow> (string \<times> addr) list \<Rightarrow> (string \<times> addr) list" where
  "map_store k v m = insort_key fst (k, v) (AList.delete k m)"

subsection \<open>Activation\<close>

text \<open>
  Modelled from the spec: \<^verbatim>\<open>safeDelete\<close> is a helper of the repository that the sources at
  hand only call; the spec has \<^verbatim>\<open>clearActiveQuantity\<close> "invalidate/destroy" the primary
  program, which is "absent" afterwards. A program that is present is released and the
  slot is emptied; an empty slot stays empty.
\<close>

definition deleteProgram :: "point_cloud \<Rightarrow> point_cloud" where
  "deleteProgram s =
     (case program s of
        None \<Rightarrow> s
      | Some p \<Rightarrow> emit [EvDeleteProgram p] (s\<lparr>program := None\<rparr>))"

definition clearActiveQuantity :: "point_cloud \<Rightarrow> error + point_cloud" where
  "clearActiveQuantity s =
     (let s1 = deleteProgram s in
      case activePointQuantity s1 of
        None \<Rightarrow> Inr s1
      | Some q \<Rightarrow>
          and_then (set_enabled q False s1) (\<lambda>s2.
            Inr (emit [EvSetActive None] (s2\<lparr>activePointQuantity := None\<rparr>))))"

definition setActiveQuantity :: "addr \<Rightarrow> point_cloud \<Rightarrow> error + point_cloud" where
  "setActiveQuantity q s =
     and_then (clearActiveQuantity s) (\<lambda>s1.
       set_enabled q True (emit [EvSetActive (Some q)] (s1\<lparr>activePointQuantity := Some q\<rparr>)))"

subsection \<open>Registry\<close>

definition removeQuantity :: "string \<Rightarrow> point_cloud \<Rightarrow> error + point_cloud" where
  "removeQuantity nm s =
     (case map_of (quantities s) nm of
        None \<Rightarrow> Inr s
      | Some q \<Rightarrow>
          (let s1 = emit [EvErase nm] (s\<lparr>quantities := AList.delete nm (quantities s)\<rparr>) in
           and_then (if activePointQuantity s1 = Some q then clearActiveQuantity s1 else Inr s1)
             (destroy q)))"

text \<open>
  The two overloads of \<^verbatim>\<open>addQuantity\<close> start with the same statements: read the enabled
  flag of a quantity of the same name and remove that quantity, then store the new one.
  \<open>addQuantity_store\<close> is this common part; it returns \<^verbatim>\<open>wasEnabled\<close> with the state.
\<close>

definition addQuantity_store :: "addr \<Rightarrow> point_cloud \<Rightarrow> error + (bool \<times> point_cloud)" where
  "addQuantity_store quantity s =
     and_then (deref s quantity) (\<lambda>obj.
     and_then
       (case map_of (quantities s) (q_name obj) of
          None \<Rightarrow> Inr (False, s)
        | Some old \<Rightarrow>
            and_then (deref s old) (\<lambda>oldobj.
            and_then (removeQuantity (q_name obj) s) (\<lambda>s1. Inr (q_enabled oldobj, s1))))
       (\<lambda>(wasEnabled, s1).
          and_then (deref s1 quantity) (\<lambda>obj1.
            Inr (wasEnabled,
                 emit [EvStore (q_name obj1) quantity]
                   (s1\<lparr>quantities := map_store (q_name obj1) quantity (quantities s1)\<rparr>)))))"

text \<open>\<^verbatim>\<open>addQuantity(PointCloudQuantity*)\<close>\<close>

definition addQuantity :: "addr \<Rightarrow> point_cloud \<Rightarrow> error + point_cloud" where
  "addQuantity quantity s =
     and_then (addQuantity_store quantity s) (\<lambda>(wasEnabled, s2).
       if wasEnabled then set_enabled quantity True s2 else Inr s2)"

text \<open>\<^verbatim>\<open>addQuantity(PointCloudQuantityThatDrawsPoints*)\<close>\<close>

definition addQuantity_drawsPoints :: "addr \<Rightarrow> point_cloud \<Rightarrow> error + point_cloud" where
  "addQuantity_drawsPoints quantity s =
     and_then (addQuantity_store quantity s) (\<lambda>(wasEnabled, s2).
       if wasEnabled
       then and_then (set_enabled quantity True s2) (setActiveQuantity quantity)
       else Inr s2)"

text \<open>
  \<^verbatim>\<open>getQuantity\<close> returns a pointer, \<open>None\<close> for \<^verbatim>\<open>nullptr\<close>, and the state.
  Modelled from the spec: \<^verbatim>\<open>polyscope::error\<close> is a function of the repository that the
  sources at hand only call; the spec has it signal the error "through the reporting
  channel (non-fatal, visible to caller)", so that the call returns and is recorded.
\<close>

definition getQuantity :: "string \<Rightarrow> bool \<Rightarrow> point_cloud \<Rightarrow> addr option \<times> point_cloud" where
  "getQuantity nm errorIfAbsent s =
     (case map_of (quantities s) nm of
        None \<Rightarrow>
          (None,
           if errorIfAbsent
           then emit [EvError (''No quantity named '' @ nm @ '' registered'')] s
           else s)
      | Some q \<Rightarrow> (Some q, s))"

text \<open>
  \<^verbatim>\<open>removeAllQuantities\<close> removes the first entry of the map until the map is empty.
  Each round erases the entry it names, which is why the loop ends.
\<close>

function removeAllQuantities :: "point_cloud \<Rightarrow> error + point_cloud" where
  "removeAllQuantities s =
     (case quantities s of
        [] \<Rightarrow> Inr s
      | (k, _) # _ \<Rightarrow>
          (case removeQuantity k s of
             Inl e \<Rightarrow> Inl e
           | Inr s' \<Rightarrow> removeAllQuantities s'))"
  by pat_completeness auto
termination
proof (relation "measure (\<lambda>s. length (quantities s))")
  show "wf (measure (\<lambda>s. length (quantities s)))"
    by simp
qed (auto simp: removeQuantity_def clearActiveQuantity_def deleteProgram_def set_enabled_def
      destroy_def deref_def and_then_def emit_def Let_def less_Suc_eq_le length_delete_le
      split: option.splits if_splits sum.splits)

declare removeAllQuantities.simps [simp del]

subsection \<open>Render pass\<close>

definition prepare :: "point_cloud \<Rightarrow> error + point_cloud" where
  "prepare s =
     and_then
       (case activePointQuantity s of
          None \<Rightarrow> Inr (emit [EvNewProgram DefaultProgram] (s\<lparr>program := Some DefaultProgram\<rparr>))
        | Some q \<Rightarrow>
            and_then (deref s q) (\<lambda>_.
              Inr (emit [EvCreateProgram q] (s\<lparr>program := Some (QuantityProgram q)\<rparr>))))
       (\<lambda>s1.
          case program s1 of
            None \<Rightarrow> Inl NullProgram
          | Some p \<Rightarrow> Inr (emit [EvSetMaterial p ''wax'', EvSetAttribute p ''a_position''] s1))"

text \<open>
  \<^verbatim>\<open>setPointCloudUniforms\<close> sets seven uniforms whose values come from the view; the
  record keeps their names. The flag \<^verbatim>\<open>withLight\<close> is not read by the source.
\<close>

definition setPointCloudUniforms :: "program \<Rightarrow> bool \<Rightarrow> point_cloud \<Rightarrow> point_cloud" where
  "setPointCloudUniforms p withLight s =
     emit (map (EvSetUniform p)
             [''u_modelView'', ''u_projMatrix'', ''u_camZ'', ''u_camUp'', ''u_camRight'',
              ''u_pointRadius'', ''u_baseColor'']) s"

text \<open>The last loop of \<^verbatim>\<open>draw\<close>: the \<^verbatim>\<open>draw\<close> hook of each quantity, in map order.\<close>

fun draw_quantities :: "addr list \<Rightarrow> point_cloud \<Rightarrow> error + point_cloud" where
  "draw_quantities [] s = Inr s"
| "draw_quantities (q # qs) s =
     and_then (deref s q) (\<lambda>_. draw_quantities qs (emit [EvQuantityDraw q] s))"

definition draw :: "point_cloud \<Rightarrow> error + point_cloud" where
  "draw s =
     (if \<not> enabled s then Inr s
      else
        and_then (if program s = None then prepare s else Inr s) (\<lambda>s1.
          case program s1 of
            None \<Rightarrow> Inl NullProgram
          | Some p \<Rightarrow>
              and_then
                (case activePointQuantity s1 of
                   None \<Rightarrow> Inr (setPointCloudUniforms p True s1)
                 | Some q \<Rightarrow>
                     and_then (deref s1 q) (\<lambda>_.
                       Inr (emit [EvSetProgramValues q p] (setPointCloudUniforms p True s1))))
                (\<lambda>s2. draw_quantities (map snd (quantities s2)) (emit [EvProgramDraw p] s2))))"

subsection \<open>Sequences of calls\<close>

text \<open>
  The calls a client makes on one point cloud. \<open>Construct a obj\<close> is the construction of
  a quantity object, at an address that holds no object. The C++ types admit only a
  \<^verbatim>\<open>PointCloudQuantityThatDrawsPoints\<close> in the second overload of \<^verbatim>\<open>addQuantity\<close> and in
  \<^verbatim>\<open>setActiveQuantity\<close>, and \<^verbatim>\<open>setActiveQuantity\<close> is called on quantities of the map.
\<close>

datatype call =
    Construct addr quantity
  | AddQuantity addr
  | AddQuantityDrawsPoints addr
  | SetActiveQuantity addr
  | RemoveQuantity string
  | RemoveAllQuantities

definition drawsPoints :: "point_cloud \<Rightarrow> addr \<Rightarrow> bool" where
  "drawsPoints s a = (map_option q_drawsPoints (heap s a) = Some True)"

definition registered :: "point_cloud \<Rightarrow> addr \<Rightarrow> bool" where
  "registered s a = (a \<in> snd ` set (quantities s))"

fun step :: "call \<Rightarrow> point_cloud \<Rightarrow> error + point_cloud" where
  "step (Construct a obj) s =
     (if heap s a = None then Inr (s\<lparr>heap := (heap s)(a \<mapsto> obj)\<rparr>) else Inl (AddressInUse a))"
| "step (AddQuantity a) s = addQuantity a s"
| "step (AddQuantityDrawsPoints a) s =
     (if drawsPoints s a then addQuantity_drawsPoints a s else Inl (NotDrawsPoints a))"
| "step (SetActiveQuantity a) s =
     (if \<not> registered s a then Inl (NotRegistered a)
      else if \<not> drawsPoints s a then Inl (NotDrawsPoints a)
      else setActiveQuantity a s)"
| "step (RemoveQuantity nm) s = removeQuantity nm s"
| "step RemoveAllQuantities s = removeAllQuantities s"

fun run :: "call list \<Rightarrow> point_cloud \<Rightarrow> error + point_cloud" where
  "run [] s = Inr s"
| "run (c # cs) s = and_then (step c s) (run cs)"

text \<open>
  The registry is well formed when its keys are distinct, each entry points to a live
  object of that name, and the active quantity, if there is one, is an entry of the map
  that draws points and is enabled.
\<close>

definition well_formed :: "point_cloud \<Rightarrow> bool" where
  "well_formed s =
     (distinct (map fst (quantities s)) \<and>
      (\<forall>(n, a) \<in> set (quantities s). map_option q_name (heap s a) = Some n) \<and>
      (case activePointQuantity s of
         None \<Rightarrow> True
       | Some a \<Rightarrow>
           registered s a \<and> drawsPoints s a \<and> map_option q_enabled (heap s a) = Some True))"


text \<open>Two states hold the same objects when no object was created, destroyed, renamed or
  changed in type between them: they differ in \<^verbatim>\<open>enabled\<close> flags at most.\<close>

definition same_objects :: "point_cloud \<Rightarrow> point_cloud \<Rightarrow> bool" where
  "same_objects s s' =
     (\<forall>a. map_option q_name (heap s' a) = map_option q_name (heap s a) \<and>
          map_option q_drawsPoints (heap s' a) = map_option q_drawsPoints (heap s a))"

subsection \<open>The render pass in the words of the spec\<close>

text \<open>
  What one \<^verbatim>\<open>draw\<close> of an enabled structure does, following the steps of the spec.
  \<open>primary_program s\<close> is the program drawn: the cached one or, when there is none, the
  default program of the structure without an active quantity and the program of the
  active quantity otherwise.
\<close>

definition primary_program :: "point_cloud \<Rightarrow> program" where
  "primary_program s =
     (case program s of
        Some p \<Rightarrow> p
      | None \<Rightarrow>
          (case activePointQuantity s of
             None \<Rightarrow> DefaultProgram
           | Some q \<Rightarrow> QuantityProgram q))"

text \<open>Step 2: nothing when the program is cached, else its construction.\<close>

definition build_events :: "point_cloud \<Rightarrow> event list" where
  "build_events s =
     (case program s of
        Some p \<Rightarrow> []
      | None \<Rightarrow>
          (case activePointQuantity s of
             None \<Rightarrow> EvNewProgram DefaultProgram
           | Some q \<Rightarrow> EvCreateProgram q)
          # [EvSetMaterial (primary_program s) ''wax'',
             EvSetAttribute (primary_program s) ''a_position''])"

text \<open>Steps 3 and 4: the uniforms of the frame, then the hook of the active quantity.\<close>

definition uniform_events :: "point_cloud \<Rightarrow> event list" where
  "uniform_events s =
     map (EvSetUniform (primary_program s))
       [''u_modelView'', ''u_projMatrix'', ''u_camZ'', ''u_camUp'', ''u_camRight'',
        ''u_pointRadius'', ''u_baseColor'']
     @ (case activePointQuantity s of
          None \<Rightarrow> []
        | Some q \<Rightarrow> [EvSetProgramValues q (primary_program s)])"

text \<open>The events that are draw calls on a GPU program, and those that are quantity hooks.\<close>

fun is_program_draw :: "event \<Rightarrow> bool" where
  "is_program_draw (EvProgramDraw p) = True"
| "is_program_draw _ = False"

fun is_quantity_draw :: "event \<Rightarrow> bool" where
  "is_quantity_draw (EvQuantityDraw q) = True"
| "is_quantity_draw _ = False"

subsection \<open>Example states\<close>

text \<open>A point cloud as its constructor leaves it: both programs built, no quantity.\<close>

definition example_cloud :: point_cloud where
  "example_cloud =
     \<lparr>points = [mk_vec3 (Finite 0) (Finite 0) (Finite 0), mk_vec3 (Finite 2) (Finite 0) (Finite 0)],
      enabled = True,
      objectTransform = identity_mat4,
      quantities = [],
      initialBaseColor = mk_vec3 (Finite 1) (Finite 0) (Finite 0),
      pointColor = mk_vec3 (Finite 1) (Finite 0) (Finite 0),
      pointRadius = Finite (5 / 1000),
      program = Some DefaultProgram,
      pickProgram = Some PickProgram,
      activePointQuantity = None,
      heap = Map.empty,
      trace = []\<rparr>"

definition colorByGroup :: quantity where
  "colorByGroup = \<lparr>q_name = ''colorByGroup'', q_enabled = False, q_drawsPoints = True\<rparr>"

definition colorByHeight :: quantity where
  "colorByHeight = \<lparr>q_name = ''colorByHeight'', q_enabled = False, q_drawsPoints = True\<rparr>"

definition normals :: quantity where
  "normals = \<lparr>q_name = ''normals'', q_enabled = False, q_drawsPoints = False\<rparr>"

text \<open>The example cloud with \<open>colorByGroup\<close> at address 0, registered, active and drawn
  once, and \<open>normals\<close> at address 1, registered.\<close>

definition active_cloud :: point_cloud where
  "active_cloud =
     example_cloud
       \<lparr>quantities := [(''colorByGroup'', 0), (''normals'', 1)],
        program := Some (QuantityProgram 0),
        activePointQuantity := Some 0,
        heap := [0 \<mapsto> colorByGroup\<lparr>q_enabled := True\<rparr>, 1 \<mapsto> normals]\<rparr>"

section \<open>Derived geometry: theorems\<close>

lemmas geometry_defs =
  boundingBox_def lengthScale_def lengthScale_spec_def transformPoint_def mat4_mul_vec4_def
  vec4_add_def vec4_scale_def vec3_add_def vec3_sub_def vec3_neg_def vec3_mul_scalar_def scalar_mul_vec3_def
  mk_vec3_def mk_vec4_def componentwiseMin_def componentwiseMax_def std_min_def std_max_def
  length2_def identity_mat4_def translation_mat4_def fl_sub_def Let_def

text \<open>
  C2. The spec takes the length scale as twice the largest distance from the center of
  the bounding box to a transformed point. The code takes the center from the
  transformed points and the distances from the stored points, so the two differ as
  soon as the transform moves the points. For the single point \<open>(0,0,0)\<close> under the
  translation by \<open>(1,0,0)\<close> the bounding box is the point \<open>(1,0,0)\<close>; the spec gives the
  length scale \<open>0\<close>, the code gives \<open>2\<close>.
\<close>

theorem lengthScale_ignores_objectTransform:
  "boundingBox (translation_mat4 (Finite 1) (Finite 0) (Finite 0))
     [mk_vec3 (Finite 0) (Finite 0) (Finite 0)]
     = (mk_vec3 (Finite 1) (Finite 0) (Finite 0), mk_vec3 (Finite 1) (Finite 0) (Finite 0))
   \<and> lengthScale_spec (translation_mat4 (Finite 1) (Finite 0) (Finite 0))
       [mk_vec3 (Finite 0) (Finite 0) (Finite 0)] = Finite 0
   \<and> lengthScale (translation_mat4 (Finite 1) (Finite 0) (Finite 0))
       [mk_vec3 (Finite 0) (Finite 0) (Finite 0)] = Finite 2"
  by (simp add: geometry_defs)

text \<open>
  C8. For the points \<open>(0,0,0)\<close> and \<open>(2,0,0)\<close> and the identity transform, the bounding box
  is \<open>((0,0,0), (2,0,0))\<close> and the length scale is \<open>2\<close>.
\<close>

theorem boundingBox_lengthScale_two_points:
  "boundingBox identity_mat4
     [mk_vec3 (Finite 0) (Finite 0) (Finite 0), mk_vec3 (Finite 2) (Finite 0) (Finite 0)]
     = (mk_vec3 (Finite 0) (Finite 0) (Finite 0), mk_vec3 (Finite 2) (Finite 0) (Finite 0))
   \<and> lengthScale identity_mat4
       [mk_vec3 (Finite 0) (Finite 0) (Finite 0), mk_vec3 (Finite 2) (Finite 0) (Finite 0)]
     = Finite 2"
  by (simp add: geometry_defs)

text \<open>
  C9. Without points, whatever the transform, the bounding box is the start value of the
  fold, \<open>min = (+inf, +inf, +inf)\<close> and \<open>max = (-inf, -inf, -inf)\<close>: \<open>max\<close> is below \<open>min\<close>
  in each coordinate, and folding a point of finite coordinates into it gives that
  point back. The length scale is \<open>0\<close>.
\<close>

theorem boundingBox_lengthScale_no_points:
  "boundingBox T [] = (mk_vec3 PlusInf PlusInf PlusInf, mk_vec3 MinusInf MinusInf MinusInf)
   \<and> fl_less (x (snd (boundingBox T []))) (x (fst (boundingBox T [])))
   \<and> fl_less (y (snd (boundingBox T []))) (y (fst (boundingBox T [])))
   \<and> fl_less (z (snd (boundingBox T []))) (z (fst (boundingBox T [])))
   \<and> componentwiseMin (fst (boundingBox T [])) (mk_vec3 (Finite a) (Finite b) (Finite c))
       = mk_vec3 (Finite a) (Finite b) (Finite c)
   \<and> componentwiseMax (snd (boundingBox T [])) (mk_vec3 (Finite a) (Finite b) (Finite c))
       = mk_vec3 (Finite a) (Finite b) (Finite c)
   \<and> lengthScale T [] = Finite 0"
  by (simp add: geometry_defs)

section \<open>Registry and render pass: lemmas\<close>

subsection \<open>Results, heap accesses and the ordered map\<close>

lemma and_then_Inr [simp]: "and_then (Inr v) f = f v"
  by (simp add: and_then_def)

lemma and_then_Inl [simp]: "and_then (Inl e) f = Inl e"
  by (simp add: and_then_def)

lemma and_then_eq_Inr: "and_then m f = Inr r \<longleftrightarrow> (\<exists>v. m = Inr v \<and> f v = Inr r)"
  by (cases m) simp_all

lemma deref_eq_Inr: "deref s a = Inr obj \<longleftrightarrow> heap s a = Some obj"
  by (simp add: deref_def split: option.splits)

lemma set_enabled_eq_Inr:
  "set_enabled q b s = Inr s' \<longleftrightarrow>
     (\<exists>obj. heap s q = Some obj \<and>
        s' = s\<lparr>heap := (heap s)(q \<mapsto> obj\<lparr>q_enabled := b\<rparr>), trace := trace s @ [EvSetEnabled q b]\<rparr>)"
  by (auto simp: set_enabled_def and_then_eq_Inr deref_eq_Inr emit_def)

lemma destroy_eq_Inr:
  "destroy q s = Inr s' \<longleftrightarrow>
     (\<exists>obj. heap s q = Some obj \<and>
        s' = s\<lparr>heap := (heap s)(q := None), trace := trace s @ [EvDestroy q]\<rparr>)"
  by (auto simp: destroy_def and_then_eq_Inr deref_eq_Inr emit_def)

lemma deleteProgram_fields [simp]:
  "program (deleteProgram s) = None"
  "quantities (deleteProgram s) = quantities s"
  "activePointQuantity (deleteProgram s) = activePointQuantity s"
  "heap (deleteProgram s) = heap s"
  by (simp_all add: deleteProgram_def emit_def split: option.splits)

lemma map_fst_insort_key: "map fst (insort_key fst kv m) = insort (fst kv) (map fst m)"
  by (induction m) simp_all

lemma set_map_store: "set (map_store k v m) = insert (k, v) {e \<in> set m. fst e \<noteq> k}"
  by (auto simp: map_store_def set_insort_key AList.delete_eq)

lemma distinct_map_store: "distinct (map fst m) \<Longrightarrow> distinct (map fst (map_store k v m))"
  by (auto simp: map_store_def map_fst_insort_key distinct_insort AList.delete_eq distinct_map_filter)

lemma set_delete: "set (AList.delete k m) = {e \<in> set m. fst e \<noteq> k}"
  by (auto simp: AList.delete_eq)

lemma distinct_delete_keys: "distinct (map fst m) \<Longrightarrow> distinct (map fst (AList.delete k m))"
  by (simp add: AList.delete_eq distinct_map_filter)

subsection \<open>Activation\<close>

lemma clearActiveQuantity_None:
  "activePointQuantity s = None \<Longrightarrow> clearActiveQuantity s = Inr (deleteProgram s)"
  by (simp add: clearActiveQuantity_def Let_def)

lemma clearActiveQuantity_Some:
  "activePointQuantity s = Some q \<Longrightarrow> heap s q = Some obj \<Longrightarrow>
   clearActiveQuantity s =
     Inr ((deleteProgram s)\<lparr>heap := (heap s)(q \<mapsto> obj\<lparr>q_enabled := False\<rparr>),
            activePointQuantity := None,
            trace := trace (deleteProgram s) @ [EvSetEnabled q False, EvSetActive None]\<rparr>)"
  by (simp add: clearActiveQuantity_def Let_def set_enabled_def deref_def emit_def)

lemma clearActiveQuantity_effect:
  assumes "clearActiveQuantity s = Inr s'"
  shows "activePointQuantity s' = None \<and> quantities s' = quantities s \<and> program s' = None \<and>
         same_objects s s' \<and>
         (\<forall>a. activePointQuantity s \<noteq> Some a \<longrightarrow> heap s' a = heap s a)"
  using assms
  by (auto simp: clearActiveQuantity_def Let_def and_then_eq_Inr set_enabled_eq_Inr emit_def
      same_objects_def split: option.splits)

lemma well_formed_clear:
  assumes "well_formed s" "clearActiveQuantity s = Inr s'"
  shows "well_formed s'"
proof -
  from clearActiveQuantity_effect[OF assms(2)]
  have e: "activePointQuantity s' = None" "quantities s' = quantities s" "same_objects s s'"
    by simp_all
  with assms(1) show ?thesis
    by (auto simp: well_formed_def same_objects_def)
qed

subsection \<open>The well-formed registry is preserved by every call\<close>

lemma well_formed_entry:
  "well_formed s \<Longrightarrow> (n, a) \<in> set (quantities s) \<Longrightarrow> map_option q_name (heap s a) = Some n"
  by (auto simp: well_formed_def)

lemma well_formedI:
  assumes "distinct (map fst (quantities s))"
    and "\<And>n a. (n, a) \<in> set (quantities s) \<Longrightarrow> map_option q_name (heap s a) = Some n"
    and "\<And>a. activePointQuantity s = Some a \<Longrightarrow>
           registered s a \<and> drawsPoints s a \<and> map_option q_enabled (heap s a) = Some True"
  shows "well_formed s"
  using assms unfolding well_formed_def by (auto split: option.splits)

lemma well_formed_distinct: "well_formed s \<Longrightarrow> distinct (map fst (quantities s))"
  by (simp add: well_formed_def)

lemma well_formed_active:
  "well_formed s \<Longrightarrow> activePointQuantity s = Some a \<Longrightarrow>
   registered s a \<and> drawsPoints s a \<and> map_option q_enabled (heap s a) = Some True"
  by (simp add: well_formed_def)

lemma same_objects_name:
  "same_objects s s' \<Longrightarrow> map_option q_name (heap s' a) = map_option q_name (heap s a)"
  by (simp add: same_objects_def)

lemma same_objects_drawsPoints: "same_objects s s' \<Longrightarrow> drawsPoints s' a = drawsPoints s a"
  by (simp add: same_objects_def drawsPoints_def)

lemma same_objects_refl [simp]: "same_objects s s"
  by (simp add: same_objects_def)

lemma same_objects_trans: "same_objects s s1 \<Longrightarrow> same_objects s1 s2 \<Longrightarrow> same_objects s s2"
  by (simp add: same_objects_def)

lemma set_enabled_same_objects: "set_enabled q b s = Inr s' \<Longrightarrow> same_objects s s'"
  by (auto simp: set_enabled_eq_Inr same_objects_def)

lemma well_formed_setActive:
  assumes wf: "well_formed s" and reg: "registered s q" and dr: "drawsPoints s q"
    and run: "setActiveQuantity q s = Inr s'"
  shows "well_formed s' \<and> activePointQuantity s' = Some q \<and> quantities s' = quantities s \<and>
         same_objects s s'"
proof -
  from run obtain s1 where c: "clearActiveQuantity s = Inr s1"
    and e: "set_enabled q True (emit [EvSetActive (Some q)] (s1\<lparr>activePointQuantity := Some q\<rparr>)) = Inr s'"
    by (auto simp: setActiveQuantity_def and_then_eq_Inr)
  let ?s2 = "emit [EvSetActive (Some q)] (s1\<lparr>activePointQuantity := Some q\<rparr>)"
  from clearActiveQuantity_effect[OF c]
  have s1: "quantities s1 = quantities s" "same_objects s s1" by simp_all
  have "same_objects s1 ?s2" by (simp add: same_objects_def emit_def)
  with s1(2) set_enabled_same_objects[OF e] have so: "same_objects s s'"
    by (blast intro: same_objects_trans)
  from e have qs: "quantities s' = quantities s" and act: "activePointQuantity s' = Some q"
    and en: "map_option q_enabled (heap s' q) = Some True"
    using s1(1) by (auto simp: set_enabled_eq_Inr emit_def)
  have "well_formed s'"
  proof (rule well_formedI)
    show "distinct (map fst (quantities s'))"
      using wf qs by (simp add: well_formed_distinct)
  next
    fix n a assume "(n, a) \<in> set (quantities s')"
    then show "map_option q_name (heap s' a) = Some n"
      using wf qs same_objects_name[OF so] by (simp add: well_formed_entry)
  next
    fix a assume "activePointQuantity s' = Some a"
    with act have "a = q" by simp
    then show "registered s' a \<and> drawsPoints s' a \<and> map_option q_enabled (heap s' a) = Some True"
      using reg dr en qs same_objects_drawsPoints[OF so] by (simp add: registered_def)
  qed
  then show ?thesis using so qs act by simp
qed

lemma removeQuantity_absent:
  "map_of (quantities s) nm = None \<Longrightarrow> removeQuantity nm s = Inr s"
  by (simp add: removeQuantity_def)

lemma removeQuantity_effect:
  assumes "removeQuantity nm s = Inr s'" "map_of (quantities s) nm = Some q"
  shows "quantities s' = AList.delete nm (quantities s) \<and>
         heap s q \<noteq> None \<and> heap s' q = None \<and>
         (\<forall>a. a \<noteq> q \<longrightarrow> heap s' a = heap s a) \<and>
         activePointQuantity s' =
           (if activePointQuantity s = Some q then None else activePointQuantity s)"
  using assms
  by (auto simp: removeQuantity_def Let_def and_then_eq_Inr destroy_eq_Inr emit_def
      clearActiveQuantity_def set_enabled_eq_Inr deleteProgram_def
      split: if_splits option.splits)

lemma well_formed_map_of:
  "well_formed s \<Longrightarrow> (n, a) \<in> set (quantities s) \<longleftrightarrow> map_of (quantities s) n = Some a"
  by (auto simp: well_formed_def)

lemma well_formed_remove:
  assumes wf: "well_formed s" and run: "removeQuantity nm s = Inr s'"
  shows "well_formed s'"
proof (cases "map_of (quantities s) nm")
  case None
  with run wf show ?thesis by (simp add: removeQuantity_absent)
next
  case (Some q)
  note eff = removeQuantity_effect[OF run Some]
  have q_in: "(nm, q) \<in> set (quantities s)"
    using Some by (rule map_of_SomeD)
  have other: "a \<noteq> q" if "(n, a) \<in> set (quantities s)" "n \<noteq> nm" for n a
    using that wf q_in well_formed_entry[OF wf that(1)] well_formed_entry[OF wf q_in] by auto
  have d: "distinct (map fst (quantities s'))"
    using wf eff by (simp add: well_formed_def distinct_delete_keys)
  have ent: "\<forall>(n, a) \<in> set (quantities s'). map_option q_name (heap s' a) = Some n"
    using eff other wf by (auto simp: set_delete well_formed_def)
  have act: "case activePointQuantity s' of None \<Rightarrow> True
     | Some a \<Rightarrow> registered s' a \<and> drawsPoints s' a \<and> map_option q_enabled (heap s' a) = Some True"
  proof (cases "activePointQuantity s'")
    case None
    then show ?thesis by simp
  next
    case (Some b)
    with eff have b: "activePointQuantity s = Some b" "b \<noteq> q"
      by (auto split: if_splits)
    with wf obtain n where n: "(n, b) \<in> set (quantities s)"
      by (auto simp: well_formed_def registered_def)
    have "n \<noteq> nm"
      using n q_in b(2) wf by (auto simp: well_formed_def dest: eq_key_imp_eq_value)
    with n have "registered s' b"
      using eff by (force simp: registered_def set_delete)
    moreover have "heap s' b = heap s b" using eff b by simp
    ultimately show ?thesis
      using wf b Some by (simp add: well_formed_def drawsPoints_def)
  qed
  from d ent act show ?thesis unfolding well_formed_def by simp
qed

lemma map_of_delete_same: "map_of (AList.delete k m) k = None"
  by (simp add: AList.delete_eq map_of_eq_None_iff image_iff)

lemma addQuantity_store_cases:
  assumes run: "addQuantity_store a s = Inr (w, s')"
  obtains obj s1 where "heap s a = Some obj" "heap s1 a = Some obj"
    "s' = emit [EvStore (q_name obj) a]
            (s1\<lparr>quantities := map_store (q_name obj) a (quantities s1)\<rparr>)"
    "(map_of (quantities s) (q_name obj) = None \<and> s1 = s \<and> \<not> w) \<or>
     (\<exists>old oldobj. map_of (quantities s) (q_name obj) = Some old \<and> heap s old = Some oldobj \<and>
        old \<noteq> a \<and> removeQuantity (q_name obj) s = Inr s1 \<and> w = q_enabled oldobj)"
proof -
  from run obtain obj where obj: "heap s a = Some obj"
    by (auto simp: addQuantity_store_def and_then_eq_Inr deref_eq_Inr)
  show thesis
  proof (cases "map_of (quantities s) (q_name obj)")
    case None
    with run obj have "s' = emit [EvStore (q_name obj) a]
            (s\<lparr>quantities := map_store (q_name obj) a (quantities s)\<rparr>)" "\<not> w"
      by (auto simp: addQuantity_store_def and_then_eq_Inr deref_eq_Inr)
    with None obj show thesis by (intro that[of obj s]) auto
  next
    case (Some old)
    with run obj obtain oldobj s1 obj1 where o: "heap s old = Some oldobj"
      and rm: "removeQuantity (q_name obj) s = Inr s1" and w: "w = q_enabled oldobj"
      and obj1: "heap s1 a = Some obj1"
      and s': "s' = emit [EvStore (q_name obj1) a]
            (s1\<lparr>quantities := map_store (q_name obj1) a (quantities s1)\<rparr>)"
      by (auto simp: addQuantity_store_def and_then_eq_Inr deref_eq_Inr)
    note eff = removeQuantity_effect[OF rm Some]
    from eff obj1 have ne: "old \<noteq> a" by auto
    with eff obj obj1 have "obj1 = obj" by auto
    with Some o rm w obj1 s' ne obj show thesis by (intro that[of obj s1]) auto
  qed
qed

lemma store_well_formed:
  assumes wf: "well_formed s1" and obj: "heap s1 a = Some obj"
    and fresh: "map_of (quantities s1) (q_name obj) = None"
    and s': "s' = emit [EvStore (q_name obj) a]
            (s1\<lparr>quantities := map_store (q_name obj) a (quantities s1)\<rparr>)"
  shows "well_formed s' \<and> registered s' a"
proof -
  have qs: "set (quantities s') = insert (q_name obj, a) {e \<in> set (quantities s1). fst e \<noteq> q_name obj}"
    and hp: "heap s' = heap s1" and act: "activePointQuantity s' = activePointQuantity s1"
    by (simp_all add: s' emit_def set_map_store)
  have keep: "(n, b) \<in> set (quantities s') \<longleftrightarrow> (n, b) = (q_name obj, a) \<or> (n, b) \<in> set (quantities s1)" for n b
    using fresh qs by (auto simp: map_of_eq_None_iff image_iff)
  have wfs: "well_formed s'"
  proof (rule well_formedI)
    show "distinct (map fst (quantities s'))"
      using wf by (simp add: s' emit_def distinct_map_store well_formed_distinct)
  next
    fix n b assume "(n, b) \<in> set (quantities s')"
    then show "map_option q_name (heap s' b) = Some n"
      using obj hp well_formed_entry[OF wf] by (auto simp: keep)
  next
    fix b assume "activePointQuantity s' = Some b"
    with act well_formed_active[OF wf] 
    have "registered s1 b" "drawsPoints s1 b" "map_option q_enabled (heap s1 b) = Some True"
      by simp_all
    then show "registered s' b \<and> drawsPoints s' b \<and> map_option q_enabled (heap s' b) = Some True"
      using hp keep by (force simp: registered_def drawsPoints_def image_iff)
  qed
  moreover have "registered s' a"
    using keep by (force simp: registered_def image_iff)
  ultimately show ?thesis by simp
qed

lemma addQuantity_store_well_formed:
  assumes wf: "well_formed s" and run: "addQuantity_store a s = Inr (w, s')"
  shows "well_formed s' \<and> registered s' a \<and> heap s' a = heap s a \<and> heap s a \<noteq> None"
proof -
  from run obtain obj s1 where obj: "heap s a = Some obj" and obj1: "heap s1 a = Some obj"
    and s': "s' = emit [EvStore (q_name obj) a]
            (s1\<lparr>quantities := map_store (q_name obj) a (quantities s1)\<rparr>)"
    and c: "(map_of (quantities s) (q_name obj) = None \<and> s1 = s \<and> \<not> w) \<or>
     (\<exists>old oldobj. map_of (quantities s) (q_name obj) = Some old \<and> heap s old = Some oldobj \<and>
        old \<noteq> a \<and> removeQuantity (q_name obj) s = Inr s1 \<and> w = q_enabled oldobj)"
    by (rule addQuantity_store_cases)
  from c have "well_formed s1 \<and> map_of (quantities s1) (q_name obj) = None"
  proof
    assume "map_of (quantities s) (q_name obj) = None \<and> s1 = s \<and> \<not> w"
    with wf show ?thesis by simp
  next
    assume "\<exists>old oldobj. map_of (quantities s) (q_name obj) = Some old \<and> heap s old = Some oldobj \<and>
        old \<noteq> a \<and> removeQuantity (q_name obj) s = Inr s1 \<and> w = q_enabled oldobj"
    then obtain old where old: "map_of (quantities s) (q_name obj) = Some old"
      and rm: "removeQuantity (q_name obj) s = Inr s1" by blast
    from removeQuantity_effect[OF rm old] well_formed_remove[OF wf rm]
    show ?thesis by (simp add: map_of_delete_same)
  qed
  with store_well_formed[OF _ obj1 _ s'] have "well_formed s'" "registered s' a" by simp_all
  moreover have "heap s' a = heap s a" using obj obj1 by (simp add: s' emit_def)
  ultimately show ?thesis using obj by simp
qed

lemma well_formed_set_enabled_True:
  assumes wf: "well_formed s" and run: "set_enabled q True s = Inr s'"
  shows "well_formed s' \<and> quantities s' = quantities s \<and> same_objects s s'"
proof -
  note so = set_enabled_same_objects[OF run]
  from run have qs: "quantities s' = quantities s"
    and act: "activePointQuantity s' = activePointQuantity s"
    and en: "\<And>a. map_option q_enabled (heap s a) = Some True \<Longrightarrow>
               map_option q_enabled (heap s' a) = Some True"
    by (auto simp: set_enabled_eq_Inr)
  have "well_formed s'"
  proof (rule well_formedI)
    show "distinct (map fst (quantities s'))"
      using wf qs by (simp add: well_formed_distinct)
  next
    fix n a assume "(n, a) \<in> set (quantities s')"
    then show "map_option q_name (heap s' a) = Some n"
      using wf qs same_objects_name[OF so] by (simp add: well_formed_entry)
  next
    fix a assume "activePointQuantity s' = Some a"
    with act well_formed_active[OF wf] 
    show "registered s' a \<and> drawsPoints s' a \<and> map_option q_enabled (heap s' a) = Some True"
      using qs en same_objects_drawsPoints[OF so] by (simp add: registered_def)
  qed
  with qs so show ?thesis by simp
qed

lemma well_formed_addQuantity:
  assumes wf: "well_formed s" and run: "addQuantity a s = Inr s'"
  shows "well_formed s'"
proof -
  from run obtain w s2 where st: "addQuantity_store a s = Inr (w, s2)"
    and fin: "(if w then set_enabled a True s2 else Inr s2) = Inr s'"
    by (auto simp: addQuantity_def and_then_eq_Inr)
  from addQuantity_store_well_formed[OF wf st] have "well_formed s2" by simp
  with fin show ?thesis
    by (auto split: if_splits dest: well_formed_set_enabled_True)
qed

lemma well_formed_addQuantity_drawsPoints:
  assumes wf: "well_formed s" and dr: "drawsPoints s a"
    and run: "addQuantity_drawsPoints a s = Inr s'"
  shows "well_formed s'"
proof -
  from run obtain w s2 where st: "addQuantity_store a s = Inr (w, s2)"
    and fin: "(if w then and_then (set_enabled a True s2) (setActiveQuantity a) else Inr s2) = Inr s'"
    by (auto simp: addQuantity_drawsPoints_def and_then_eq_Inr)
  from addQuantity_store_well_formed[OF wf st]
  have s2: "well_formed s2" "registered s2 a" "heap s2 a = heap s a" by simp_all
  show ?thesis
  proof (cases w)
    case False
    with fin s2 show ?thesis by simp
  next
    case True
    with fin obtain s3 where e: "set_enabled a True s2 = Inr s3"
      and sa: "setActiveQuantity a s3 = Inr s'"
      by (auto simp: and_then_eq_Inr)
    from well_formed_set_enabled_True[OF s2(1) e]
    have s3: "well_formed s3" "quantities s3 = quantities s2" "same_objects s2 s3" by simp_all
    have "registered s3 a" using s2(2) s3(2) by (simp add: registered_def)
    moreover have "drawsPoints s3 a"
      using dr s2(3) same_objects_drawsPoints[OF s3(3), of a] by (simp add: drawsPoints_def)
    ultimately show ?thesis
      using well_formed_setActive[OF s3(1) _ _ sa] by simp
  qed
qed

lemma well_formed_removeAll:
  "well_formed s \<Longrightarrow> removeAllQuantities s = Inr s' \<Longrightarrow> well_formed s'"
proof (induction s rule: removeAllQuantities.induct)
  case (1 s)
  show ?case
  proof (cases "quantities s")
    case Nil
    with "1.prems" show ?thesis by (simp add: removeAllQuantities.simps)
  next
    case (Cons e rest)
    obtain k q where e: "e = (k, q)" by (cases e)
    from "1.prems"(2) Cons e obtain s1 where rm: "removeQuantity k s = Inr s1"
      and rest: "removeAllQuantities s1 = Inr s'"
      by (auto simp: removeAllQuantities.simps[of s] split: sum.splits)
    from "1.IH"[OF Cons e[symmetric] rm well_formed_remove[OF "1.prems"(1) rm] rest]
    show ?thesis .
  qed
qed

lemma well_formed_construct:
  assumes wf: "well_formed s" and free: "heap s a = None"
  shows "well_formed (s\<lparr>heap := (heap s)(a \<mapsto> obj)\<rparr>)"
proof (rule well_formedI)
  show "distinct (map fst (quantities (s\<lparr>heap := (heap s)(a \<mapsto> obj)\<rparr>)))"
    using wf by (simp add: well_formed_distinct)
next
  fix n b assume "(n, b) \<in> set (quantities (s\<lparr>heap := (heap s)(a \<mapsto> obj)\<rparr>))"
  then show "map_option q_name (heap (s\<lparr>heap := (heap s)(a \<mapsto> obj)\<rparr>) b) = Some n"
    using well_formed_entry[OF wf, of n b] free by auto
next
  fix b assume "activePointQuantity (s\<lparr>heap := (heap s)(a \<mapsto> obj)\<rparr>) = Some b"
  with well_formed_active[OF wf, of b] free
  show "registered (s\<lparr>heap := (heap s)(a \<mapsto> obj)\<rparr>) b \<and>
        drawsPoints (s\<lparr>heap := (heap s)(a \<mapsto> obj)\<rparr>) b \<and>
        map_option q_enabled (heap (s\<lparr>heap := (heap s)(a \<mapsto> obj)\<rparr>) b) = Some True"
    by (auto simp: registered_def drawsPoints_def)
qed

lemma well_formed_step: "well_formed s \<Longrightarrow> step c s = Inr s' \<Longrightarrow> well_formed s'"
proof (cases c)
  case (Construct a obj)
  then show "well_formed s \<Longrightarrow> step c s = Inr s' \<Longrightarrow> well_formed s'"
    by (auto split: if_splits intro: well_formed_construct)
qed (auto split: if_splits
      dest: well_formed_addQuantity well_formed_addQuantity_drawsPoints well_formed_setActive
        well_formed_remove well_formed_removeAll)

lemma well_formed_run: "well_formed s \<Longrightarrow> run cs s = Inr s' \<Longrightarrow> well_formed s'"
  by (induction cs arbitrary: s) (auto simp: and_then_eq_Inr dest: well_formed_step)

subsection \<open>Consequences of well-formedness\<close>

lemma distinct_filter_snd:
  "distinct (map snd m) \<Longrightarrow> length (filter (\<lambda>(n, a). P a \<and> a = b) m) \<le> 1"
proof (induction m)
  case Nil
  then show ?case by simp
next
  case (Cons e m)
  obtain n a where e: "e = (n, a)" by (cases e)
  show ?case
  proof (cases "a = b")
    case True
    with Cons.prems e have "b \<notin> snd ` set m" by simp
    then have "filter (\<lambda>(n, a). P a \<and> a = b) m = []"
      by (auto simp: filter_empty_conv image_iff)
    with e show ?thesis by simp
  next
    case False
    with Cons e show ?thesis by simp
  qed
qed

lemma well_formed_distinct_addrs:
  assumes wf: "well_formed s"
  shows "distinct (map snd (quantities s))"
proof -
  have "inj_on snd (set (quantities s))"
  proof (rule inj_onI)
    fix e1 e2 assume e: "e1 \<in> set (quantities s)" "e2 \<in> set (quantities s)" "snd e1 = snd e2"
    obtain n1 a1 n2 a2 where p: "e1 = (n1, a1)" "e2 = (n2, a2)" by (cases e1, cases e2)
    with e well_formed_entry[OF wf, of n1 a1] well_formed_entry[OF wf, of n2 a2]
    show "e1 = e2" by auto
  qed
  moreover have "distinct (quantities s)"
    using well_formed_distinct[OF wf] by (simp add: distinct_map)
  ultimately show ?thesis by (simp add: distinct_map)
qed

subsection \<open>Unfolding the examples\<close>

lemmas example_defs = example_cloud_def active_cloud_def colorByGroup_def colorByHeight_def
  normals_def

lemmas op_defs = addQuantity_def addQuantity_drawsPoints_def addQuantity_store_def
  removeQuantity_def setActiveQuantity_def clearActiveQuantity_def deleteProgram_def
  set_enabled_def destroy_def deref_def emit_def map_store_def drawsPoints_def registered_def
  AList.delete_eq Let_def

subsection \<open>Calls that succeed on a well-formed registry\<close>

lemma setActiveQuantity_total:
  assumes wf: "well_formed s" and live: "heap s q \<noteq> None"
  shows "\<exists>s'. setActiveQuantity q s = Inr s' \<and>
         activePointQuantity s' = Some q \<and> quantities s' = quantities s \<and>
         map_option q_enabled (heap s' q) = Some True \<and>
         (\<forall>a. a \<noteq> q \<and> activePointQuantity s \<noteq> Some a \<longrightarrow> heap s' a = heap s a) \<and>
         (\<forall>a. heap s a = None \<longrightarrow> heap s' a = None) \<and>
         (\<forall>q1. activePointQuantity s = Some q1 \<and> q1 \<noteq> q \<longrightarrow>
            map_option q_enabled (heap s' q1) = Some False)"
proof -
  from live obtain obj where obj: "heap s q = Some obj" by auto
  show ?thesis
  proof (cases "activePointQuantity s")
    case None
    with obj show ?thesis
      by (simp add: setActiveQuantity_def clearActiveQuantity_None set_enabled_def deref_def
          emit_def)
  next
    case (Some q1)
    with wf obtain obj1 where "heap s q1 = Some obj1"
      by (auto simp: well_formed_def drawsPoints_def)
    with Some obj show ?thesis
      by (auto simp: setActiveQuantity_def clearActiveQuantity_Some set_enabled_def deref_def
          emit_def)
  qed
qed

lemma well_formed_active_cloud: "well_formed active_cloud"
  by (simp add: well_formed_def example_defs registered_def drawsPoints_def)

lemma removeQuantity_total:
  assumes wf: "well_formed s" and q: "map_of (quantities s) nm = Some q"
  shows "\<exists>s'. removeQuantity nm s = Inr s'"
proof -
  from q have "(nm, q) \<in> set (quantities s)" by (rule map_of_SomeD)
  from well_formed_entry[OF wf this] obtain obj where "heap s q = Some obj" by auto
  with q show ?thesis
    by (auto simp: removeQuantity_def clearActiveQuantity_def deleteProgram_def set_enabled_def
        destroy_def deref_def emit_def Let_def split: option.splits)
qed

lemma map_of_map_store:
  assumes "distinct (map fst m)"
  shows "map_of (map_store k v m) k = Some v"
proof -
  have "distinct (map fst (map_store k v m))" using assms by (rule distinct_map_store)
  moreover have "(k, v) \<in> set (map_store k v m)" by (simp add: set_map_store)
  ultimately show ?thesis by (rule map_of_is_SomeI)
qed

lemma replace_store:
  assumes wf: "well_formed s"
    and old: "map_of (quantities s) X = Some old" and ho: "heap s old = Some oldobj"
    and hn: "heap s new = Some newobj" and nm: "q_name newobj = X" and ne: "new \<noteq> old"
  shows "\<exists>s2. addQuantity_store new s = Inr (q_enabled oldobj, s2) \<and> well_formed s2 \<and>
           heap s2 old = None \<and> heap s2 new = Some newobj \<and>
           map_of (quantities s2) X = Some new \<and>
           activePointQuantity s2 \<noteq> Some new \<and>
           (activePointQuantity s = Some old \<longrightarrow> activePointQuantity s2 = None)"
proof -
  from removeQuantity_total[OF wf old] obtain s1 where rm: "removeQuantity X s = Inr s1" by blast
  note eff = removeQuantity_effect[OF rm old]
  have wf1: "well_formed s1" using wf rm by (rule well_formed_remove)
  have hn1: "heap s1 new = Some newobj" using eff hn ne by simp
  let ?s2 = "emit [EvStore X new] (s1\<lparr>quantities := map_store X new (quantities s1)\<rparr>)"
  have st: "addQuantity_store new s = Inr (q_enabled oldobj, ?s2)"
    using old ho hn nm rm hn1 by (simp add: addQuantity_store_def deref_def)
  from addQuantity_store_well_formed[OF wf st] have wf2: "well_formed ?s2" by simp
  have not_reg: "\<not> registered s new"
  proof
    assume "registered s new"
    then obtain n where n: "(n, new) \<in> set (quantities s)" by (auto simp: registered_def)
    from well_formed_entry[OF wf n] hn nm have "n = X" by simp
    with n well_formed_map_of[OF wf, of X new] old ne show False by simp
  qed
  have act: "activePointQuantity ?s2 \<noteq> Some new"
  proof
    assume "activePointQuantity ?s2 = Some new"
    with eff have "activePointQuantity s = Some new" by (auto simp: emit_def split: if_splits)
    with well_formed_active[OF wf] not_reg show False by simp
  qed
  have "map_of (quantities ?s2) X = Some new"
    using well_formed_distinct[OF wf1] by (simp add: emit_def map_of_map_store)
  moreover have "heap ?s2 old = None" "heap ?s2 new = Some newobj"
    using eff hn1 by (simp_all add: emit_def)
  moreover have "activePointQuantity s = Some old \<longrightarrow> activePointQuantity ?s2 = None"
    using eff by (simp add: emit_def)
  ultimately show ?thesis using st wf2 act by blast
qed

lemma draw_quantities_live:
  "(\<forall>q \<in> set qs. heap s q \<noteq> None) \<Longrightarrow>
   draw_quantities qs s = Inr (s\<lparr>trace := trace s @ map EvQuantityDraw qs\<rparr>)"
proof (induction qs arbitrary: s)
  case Nil
  then show ?case by simp
next
  case (Cons q qs)
  then obtain obj where "heap s q = Some obj" by auto
  moreover have "\<forall>q \<in> set qs. heap (emit [EvQuantityDraw q] s) q \<noteq> None" for q
    using Cons.prems by (simp add: emit_def)
  ultimately show ?case
    using Cons.IH[of "emit [EvQuantityDraw q] s"] by (simp add: deref_def emit_def)
qed

lemma well_formed_registered_live:
  "well_formed s \<Longrightarrow> \<forall>q \<in> set (map snd (quantities s)). heap s q \<noteq> None"
  by (auto simp: well_formed_def)

lemma well_formed_active_live:
  "well_formed s \<Longrightarrow> activePointQuantity s = Some q \<Longrightarrow> \<exists>obj. heap s q = Some obj"
  by (auto simp: well_formed_def drawsPoints_def)

section \<open>Registry and render pass: theorems\<close>

text \<open>
  C1, as the code has it. Adding a quantity that draws points under a name the map
  does not hold only stores it: the active quantity and every \<^verbatim>\<open>enabled\<close> flag stay as they
  were, since \<^verbatim>\<open>setActiveQuantity\<close> is called only when an enabled quantity of that name
  is replaced. A quantity becomes the active one, with \<^verbatim>\<open>enabled\<close> set, through
  \<^verbatim>\<open>setActiveQuantity\<close>; the call also clears the \<^verbatim>\<open>enabled\<close> flag of the quantity that
  was active before.
\<close>

theorem addQuantity_stores_and_setActiveQuantity_activates:
  "(heap s q = Some obj \<and> map_of (quantities s) (q_name obj) = None \<longrightarrow>
      addQuantity_drawsPoints q s
        = Inr (s\<lparr>quantities := map_store (q_name obj) q (quantities s),
                 trace := trace s @ [EvStore (q_name obj) q]\<rparr>)) \<and>
   (well_formed t \<and> heap t p \<noteq> None \<longrightarrow>
      (\<exists>t'. setActiveQuantity p t = Inr t' \<and>
         activePointQuantity t' = Some p \<and>
         map_option q_enabled (heap t' p) = Some True \<and>
         (\<forall>q1. activePointQuantity t = Some q1 \<and> q1 \<noteq> p \<longrightarrow>
            map_option q_enabled (heap t' q1) = Some False)))"
proof (intro conjI impI)
  assume "heap s q = Some obj \<and> map_of (quantities s) (q_name obj) = None"
  then show "addQuantity_drawsPoints q s
        = Inr (s\<lparr>quantities := map_store (q_name obj) q (quantities s),
                 trace := trace s @ [EvStore (q_name obj) q]\<rparr>)"
    by (simp add: addQuantity_drawsPoints_def addQuantity_store_def deref_def emit_def)
next
  assume "well_formed t \<and> heap t p \<noteq> None"
  then have "well_formed t" "heap t p \<noteq> None" by simp_all
  from setActiveQuantity_total[OF this]
  show "\<exists>t'. setActiveQuantity p t = Inr t' \<and>
         activePointQuantity t' = Some p \<and>
         map_option q_enabled (heap t' p) = Some True \<and>
         (\<forall>q1. activePointQuantity t = Some q1 \<and> q1 \<noteq> p \<longrightarrow>
            map_option q_enabled (heap t' q1) = Some False)"
    by blast
qed

text \<open>The first part at the example cloud with \<open>colorByGroup\<close> constructed at address
  0, the second at the cloud where \<open>colorByGroup\<close> is active and \<open>normals\<close> is registered.\<close>

theorem addQuantity_stores_and_setActiveQuantity_activates_witness:
  "heap (example_cloud\<lparr>heap := [0 \<mapsto> colorByGroup]\<rparr>) 0 = Some colorByGroup \<and>
   map_of (quantities (example_cloud\<lparr>heap := [0 \<mapsto> colorByGroup]\<rparr>)) (q_name colorByGroup) = None \<and>
   addQuantity_drawsPoints 0 (example_cloud\<lparr>heap := [0 \<mapsto> colorByGroup]\<rparr>)
     = Inr (example_cloud\<lparr>heap := [0 \<mapsto> colorByGroup], quantities := [(''colorByGroup'', 0)],
             trace := [EvStore ''colorByGroup'' 0]\<rparr>) \<and>
   well_formed active_cloud \<and> heap active_cloud 1 \<noteq> None \<and>
   activePointQuantity active_cloud = Some 0 \<and>
   (\<exists>t'. setActiveQuantity 1 active_cloud = Inr t' \<and>
      activePointQuantity t' = Some 1 \<and>
      map_option q_enabled (heap t' 1) = Some True \<and>
      map_option q_enabled (heap t' 0) = Some False)"
proof -
  have h: "heap (example_cloud\<lparr>heap := [0 \<mapsto> colorByGroup]\<rparr>) 0 = Some colorByGroup"
    "map_of (quantities (example_cloud\<lparr>heap := [0 \<mapsto> colorByGroup]\<rparr>)) (q_name colorByGroup) = None"
    "well_formed active_cloud" "heap active_cloud 1 \<noteq> None"
    "activePointQuantity active_cloud = Some 0"
    by (simp_all add: well_formed_active_cloud) (simp_all add: example_defs)
  from addQuantity_stores_and_setActiveQuantity_activates
      [of "example_cloud\<lparr>heap := [0 \<mapsto> colorByGroup]\<rparr>" 0 colorByGroup active_cloud 1] h
  show ?thesis
    by (simp add: example_defs map_store_def AList.delete_eq)
qed

text \<open>
  Scenario B of the spec on the example cloud: after \<open>colorByGroup\<close> is added, and again
  after \<open>colorByHeight\<close> is added, no quantity is active and both \<^verbatim>\<open>enabled\<close> flags are
  false.
\<close>

theorem addQuantity_fresh_name_not_active:
  "run [Construct 0 colorByGroup, AddQuantityDrawsPoints 0] example_cloud
     = Inr (example_cloud
             \<lparr>quantities := [(''colorByGroup'', 0)],
              activePointQuantity := None,
              heap := [0 \<mapsto> colorByGroup],
              trace := [EvStore ''colorByGroup'' 0]\<rparr>)
   \<and> run [Construct 0 colorByGroup, AddQuantityDrawsPoints 0,
        Construct 1 colorByHeight, AddQuantityDrawsPoints 1] example_cloud
     = Inr (example_cloud
             \<lparr>quantities := [(''colorByGroup'', 0), (''colorByHeight'', 1)],
              activePointQuantity := None,
              heap := [0 \<mapsto> colorByGroup, 1 \<mapsto> colorByHeight],
              trace := [EvStore ''colorByGroup'' 0, EvStore ''colorByHeight'' 1]\<rparr>)
   \<and> q_enabled colorByGroup = False \<and> q_enabled colorByHeight = False"
  by (simp add: example_defs op_defs)

text \<open>
  C3, as the code has it. \<^verbatim>\<open>removeQuantity\<close> leaves the state as it is when no
  quantity of that name exists. When the named quantity is the active one, it erases the map entry
  first, then clears the activation (the primary program is released, the \<^verbatim>\<open>enabled\<close> flag
  cleared, the active reference set to null) and destroys the object last: the clearing
  comes after the erasure and before the destruction.
\<close>

theorem removeQuantity_erases_clears_destroys:
  "(map_of (quantities s) nm = None \<longrightarrow> removeQuantity nm s = Inr s) \<and>
   (map_of (quantities s) nm = Some q \<and> activePointQuantity s = Some q \<and> heap s q = Some obj \<longrightarrow>
      removeQuantity nm s
        = Inr (s\<lparr>quantities := AList.delete nm (quantities s),
                 program := None,
                 activePointQuantity := None,
                 heap := (heap s)(q := None),
                 trace := trace s @ [EvErase nm]
                   @ (case program s of None \<Rightarrow> [] | Some p \<Rightarrow> [EvDeleteProgram p])
                   @ [EvSetEnabled q False, EvSetActive None]
                   @ [EvDestroy q]\<rparr>))"
  by (auto simp: removeQuantity_def clearActiveQuantity_def deleteProgram_def set_enabled_def
      destroy_def deref_def emit_def Let_def split: option.splits)

text \<open>Both parts at the cloud where \<open>colorByGroup\<close> is active: no quantity is named
  \<open>heat\<close>, and \<open>colorByGroup\<close> is removed.\<close>

theorem removeQuantity_erases_clears_destroys_witness:
  "map_of (quantities active_cloud) ''heat'' = None \<and>
   removeQuantity ''heat'' active_cloud = Inr active_cloud \<and>
   map_of (quantities active_cloud) ''colorByGroup'' = Some 0 \<and>
   activePointQuantity active_cloud = Some 0 \<and>
   heap active_cloud 0 = Some (colorByGroup\<lparr>q_enabled := True\<rparr>) \<and>
   removeQuantity ''colorByGroup'' active_cloud
     = Inr (active_cloud
             \<lparr>quantities := [(''normals'', 1)],
              program := None,
              activePointQuantity := None,
              heap := (heap active_cloud)(0 := None),
              trace := [EvErase ''colorByGroup'', EvDeleteProgram (QuantityProgram 0),
                        EvSetEnabled 0 False, EvSetActive None, EvDestroy 0]\<rparr>)"
proof -
  have h: "map_of (quantities active_cloud) ''heat'' = None"
    "map_of (quantities active_cloud) ''colorByGroup'' = Some 0"
    "activePointQuantity active_cloud = Some 0"
    "heap active_cloud 0 = Some (colorByGroup\<lparr>q_enabled := True\<rparr>)"
    by (simp_all add: example_defs)
  have v: "AList.delete ''colorByGroup'' (quantities active_cloud) = [(''normals'', 1)]"
    "program active_cloud = Some (QuantityProgram 0)" "trace active_cloud = []"
    by (simp_all add: example_defs AList.delete_eq)
  from removeQuantity_erases_clears_destroys
      [of active_cloud "''heat''" 0 "colorByGroup\<lparr>q_enabled := True\<rparr>"]
    removeQuantity_erases_clears_destroys
      [of active_cloud "''colorByGroup''" 0 "colorByGroup\<lparr>q_enabled := True\<rparr>"] h
  show ?thesis by (simp add: v)
qed

text \<open>Removing the active quantity \<open>colorByGroup\<close>: the first event is the erasure of
  the map entry, the clearing follows.\<close>

theorem removeQuantity_erases_before_clearing:
  "map_of (quantities active_cloud) ''colorByGroup'' = Some 0 \<and>
   activePointQuantity active_cloud = Some 0 \<and>
   map_sum id trace (removeQuantity ''colorByGroup'' active_cloud)
     = Inr [EvErase ''colorByGroup'', EvDeleteProgram (QuantityProgram 0),
            EvSetEnabled 0 False, EvSetActive None, EvDestroy 0]"
  by (simp add: example_defs op_defs)

text \<open>
  C4. After any sequence of calls of \<^verbatim>\<open>addQuantity\<close> (either overload),
  \<^verbatim>\<open>setActiveQuantity\<close> (on a quantity of the map), \<^verbatim>\<open>removeQuantity\<close> and
  \<^verbatim>\<open>removeAllQuantities\<close> on a point cloud that starts without quantities, with quantity
  objects constructed in between, at most one entry of the map is the active quantity;
  and when the active reference is not null, the quantity it refers to is in the map,
  draws points and is enabled.
\<close>

theorem active_quantity_invariant:
  assumes "quantities s0 = []" and "activePointQuantity s0 = None" and "run cs s0 = Inr s"
  shows "length (filter (\<lambda>(n, a). activePointQuantity s = Some a) (quantities s)) \<le> 1 \<and>
         (\<forall>a. activePointQuantity s = Some a \<longrightarrow>
            registered s a \<and> drawsPoints s a \<and> map_option q_enabled (heap s a) = Some True)"
proof -
  have "well_formed s0" using assms(1,2) by (simp add: well_formed_def)
  then have wf: "well_formed s" using assms(3) by (rule well_formed_run)
  have "length (filter (\<lambda>(n, a). activePointQuantity s = Some a) (quantities s)) \<le> 1"
  proof (cases "activePointQuantity s")
    case None
    then show ?thesis by simp
  next
    case (Some b)
    have "filter (\<lambda>(n, a). activePointQuantity s = Some a) (quantities s)
        = filter (\<lambda>(n, a). True \<and> a = b) (quantities s)"
      using Some by (intro filter_cong) auto
    with distinct_filter_snd[OF well_formed_distinct_addrs[OF wf], of "\<lambda>_. True" b]
    show ?thesis by simp
  qed
  with well_formed_active[OF wf] show ?thesis by blast
qed

text \<open>A sequence of five calls on the example cloud, which ends with \<open>colorByGroup\<close>
  active.\<close>

theorem active_quantity_invariant_witness:
  "quantities example_cloud = [] \<and> activePointQuantity example_cloud = None \<and>
   run [Construct 0 colorByGroup, AddQuantityDrawsPoints 0, SetActiveQuantity 0,
        Construct 1 normals, AddQuantity 1] example_cloud
     = Inr (active_cloud
             \<lparr>program := None,
              trace := [EvStore ''colorByGroup'' 0, EvDeleteProgram DefaultProgram,
                        EvSetActive (Some 0), EvSetEnabled 0 True, EvStore ''normals'' 1]\<rparr>) \<and>
   activePointQuantity active_cloud = Some 0 \<and>
   length (filter (\<lambda>(n, a). Some 0 = Some a) (quantities active_cloud)) \<le> 1 \<and>
   registered active_cloud 0 \<and> drawsPoints active_cloud 0 \<and>
   map_option q_enabled (heap active_cloud 0) = Some True"
proof -
  let ?s = "active_cloud
             \<lparr>program := None,
              trace := [EvStore ''colorByGroup'' 0, EvDeleteProgram DefaultProgram,
                        EvSetActive (Some 0), EvSetEnabled 0 True, EvStore ''normals'' 1]\<rparr>"
  have r: "run [Construct 0 colorByGroup, AddQuantityDrawsPoints 0, SetActiveQuantity 0,
        Construct 1 normals, AddQuantity 1] example_cloud = Inr ?s"
    by (simp add: example_defs op_defs)
  have e: "quantities example_cloud = []" "activePointQuantity example_cloud = None"
    by (simp_all add: example_defs)
  have a: "activePointQuantity ?s = Some 0" by (simp add: active_cloud_def)
  from active_quantity_invariant[OF e r] a e r show ?thesis
    by (simp add: registered_def drawsPoints_def)
qed

text \<open>
  C5. Let a quantity named \<open>X\<close> be in the map and enabled, and let a new quantity object
  of the same name be added. With either overload the old object is destroyed, the map
  holds the new one under \<open>X\<close>, and the new one is enabled. The overload for plain
  quantities does not make the new quantity active (no quantity is active afterwards when
  the old one was); the overload for quantities that draw points makes it active.
\<close>

theorem addQuantity_replace_enabled:
  assumes wf: "well_formed s"
    and old: "map_of (quantities s) X = Some old" and ho: "heap s old = Some oldobj"
    and en: "q_enabled oldobj"
    and hn: "heap s new = Some newobj" and nm: "q_name newobj = X" and ne: "new \<noteq> old"
  shows "(\<exists>s'. addQuantity new s = Inr s' \<and>
            heap s' old = None \<and> map_of (quantities s') X = Some new \<and>
            map_option q_enabled (heap s' new) = Some True \<and>
            activePointQuantity s' \<noteq> Some new \<and>
            (activePointQuantity s = Some old \<longrightarrow> activePointQuantity s' = None)) \<and>
         (\<exists>s'. addQuantity_drawsPoints new s = Inr s' \<and>
            heap s' old = None \<and> map_of (quantities s') X = Some new \<and>
            map_option q_enabled (heap s' new) = Some True \<and>
            activePointQuantity s' = Some new)"
proof -
  from replace_store[OF wf old ho hn nm ne] obtain s2
    where st: "addQuantity_store new s = Inr (q_enabled oldobj, s2)" and wf2: "well_formed s2"
      and h2: "heap s2 old = None" "heap s2 new = Some newobj"
      and m2: "map_of (quantities s2) X = Some new"
      and a2: "activePointQuantity s2 \<noteq> Some new"
        "activePointQuantity s = Some old \<longrightarrow> activePointQuantity s2 = None"
    by blast
  let ?s3 = "s2\<lparr>heap := (heap s2)(new \<mapsto> newobj\<lparr>q_enabled := True\<rparr>),
                 trace := trace s2 @ [EvSetEnabled new True]\<rparr>"
  have e3: "set_enabled new True s2 = Inr ?s3"
    using h2(2) by (simp add: set_enabled_eq_Inr)
  have plain: "addQuantity new s = Inr ?s3"
    using st en e3 by (simp add: addQuantity_def)
  have first: "\<exists>s'. addQuantity new s = Inr s' \<and>
            heap s' old = None \<and> map_of (quantities s') X = Some new \<and>
            map_option q_enabled (heap s' new) = Some True \<and>
            activePointQuantity s' \<noteq> Some new \<and>
            (activePointQuantity s = Some old \<longrightarrow> activePointQuantity s' = None)"
    using plain h2 m2 a2 ne by (intro exI[of _ ?s3]) simp
  from well_formed_set_enabled_True[OF wf2 e3] have wf3: "well_formed ?s3" by simp
  have "heap ?s3 new \<noteq> None" by simp
  from setActiveQuantity_total[OF wf3 this] obtain s4
    where sa: "setActiveQuantity new ?s3 = Inr s4" and a4: "activePointQuantity s4 = Some new"
      and q4: "quantities s4 = quantities ?s3"
      and en4: "map_option q_enabled (heap s4 new) = Some True"
      and dead: "\<forall>a. heap ?s3 a = None \<longrightarrow> heap s4 a = None"
    by blast
  have "addQuantity_drawsPoints new s = Inr s4"
    using st en e3 sa by (simp add: addQuantity_drawsPoints_def)
  moreover have "heap s4 old = None" using dead h2(1) ne by simp
  moreover have "map_of (quantities s4) X = Some new" using q4 m2 by simp
  ultimately have second: "\<exists>s'. addQuantity_drawsPoints new s = Inr s' \<and>
            heap s' old = None \<and> map_of (quantities s') X = Some new \<and>
            map_option q_enabled (heap s' new) = Some True \<and>
            activePointQuantity s' = Some new"
    using en4 a4 by blast
  from first second show ?thesis by simp
qed

text \<open>The cloud where \<open>colorByGroup\<close> is active, with a second object of that name
  constructed at address 2.\<close>

theorem addQuantity_replace_enabled_witness:
  "well_formed (active_cloud\<lparr>heap := (heap active_cloud)(2 \<mapsto> colorByGroup)\<rparr>) \<and>
   map_of (quantities (active_cloud\<lparr>heap := (heap active_cloud)(2 \<mapsto> colorByGroup)\<rparr>)) ''colorByGroup'' = Some 0 \<and>
   heap (active_cloud\<lparr>heap := (heap active_cloud)(2 \<mapsto> colorByGroup)\<rparr>) 0 = Some (colorByGroup\<lparr>q_enabled := True\<rparr>) \<and>
   q_enabled (colorByGroup\<lparr>q_enabled := True\<rparr>) \<and>
   heap (active_cloud\<lparr>heap := (heap active_cloud)(2 \<mapsto> colorByGroup)\<rparr>) 2 = Some colorByGroup \<and>
   q_name colorByGroup = ''colorByGroup'' \<and> (2::nat) \<noteq> 0 \<and>
   activePointQuantity (active_cloud\<lparr>heap := (heap active_cloud)(2 \<mapsto> colorByGroup)\<rparr>) = Some 0 \<and>
   (\<exists>s'. addQuantity 2 (active_cloud\<lparr>heap := (heap active_cloud)(2 \<mapsto> colorByGroup)\<rparr>) = Inr s' \<and>
      heap s' 0 = None \<and> map_of (quantities s') ''colorByGroup'' = Some 2 \<and>
      map_option q_enabled (heap s' 2) = Some True \<and> activePointQuantity s' = None) \<and>
   (\<exists>s'. addQuantity_drawsPoints 2 (active_cloud\<lparr>heap := (heap active_cloud)(2 \<mapsto> colorByGroup)\<rparr>) = Inr s' \<and>
      heap s' 0 = None \<and> map_of (quantities s') ''colorByGroup'' = Some 2 \<and>
      map_option q_enabled (heap s' 2) = Some True \<and> activePointQuantity s' = Some 2)"
proof -
  let ?s = "active_cloud\<lparr>heap := (heap active_cloud)(2 \<mapsto> colorByGroup)\<rparr>"
  have w: "well_formed ?s"
    by (simp add: well_formed_def example_defs registered_def drawsPoints_def)
  have h: "map_of (quantities ?s) ''colorByGroup'' = Some 0"
    "heap ?s 0 = Some (colorByGroup\<lparr>q_enabled := True\<rparr>)"
    "q_enabled (colorByGroup\<lparr>q_enabled := True\<rparr>)"
    "heap ?s 2 = Some colorByGroup" "q_name colorByGroup = ''colorByGroup''" "(2::nat) \<noteq> 0"
    by (simp_all add: example_defs)
  have a: "activePointQuantity ?s = Some 0" by (simp add: example_defs)
  from addQuantity_replace_enabled[OF w h] a have
    "(\<exists>s'. addQuantity 2 ?s = Inr s' \<and>
      heap s' 0 = None \<and> map_of (quantities s') ''colorByGroup'' = Some 2 \<and>
      map_option q_enabled (heap s' 2) = Some True \<and> activePointQuantity s' = None) \<and>
     (\<exists>s'. addQuantity_drawsPoints 2 ?s = Inr s' \<and>
      heap s' 0 = None \<and> map_of (quantities s') ''colorByGroup'' = Some 2 \<and>
      map_option q_enabled (heap s' 2) = Some True \<and> activePointQuantity s' = Some 2)"
    by blast
  with a w h show ?thesis by simp
qed

text \<open>
  C6. \<^verbatim>\<open>getQuantity\<close> returns the pointer the map holds under the name, and then reports
  nothing. Without such an entry it returns null, and it reports the error exactly when
  \<^verbatim>\<open>errorIfAbsent\<close> is set. The map is the same afterwards in each case.
\<close>

theorem getQuantity_result:
  "(map_of (quantities s) nm = Some q \<longrightarrow> getQuantity nm errorIfAbsent s = (Some q, s)) \<and>
   (map_of (quantities s) nm = None \<longrightarrow>
      fst (getQuantity nm errorIfAbsent s) = None \<and>
      snd (getQuantity nm errorIfAbsent s)
        = s\<lparr>trace := trace s @
              (if errorIfAbsent then [EvError (''No quantity named '' @ nm @ '' registered'')]
               else [])\<rparr>) \<and>
   quantities (snd (getQuantity nm errorIfAbsent s)) = quantities s"
  by (simp add: getQuantity_def emit_def split: option.splits)

text \<open>A name that is in the map of the cloud and one that is not, with and without
  \<^verbatim>\<open>errorIfAbsent\<close>.\<close>

theorem getQuantity_result_witness:
  "map_of (quantities active_cloud) ''normals'' = Some 1 \<and>
   getQuantity ''normals'' True active_cloud = (Some 1, active_cloud) \<and>
   map_of (quantities active_cloud) ''missing'' = None \<and>
   getQuantity ''missing'' False active_cloud = (None, active_cloud) \<and>
   getQuantity ''missing'' True active_cloud
     = (None, active_cloud\<lparr>trace := [EvError ''No quantity named missing registered'']\<rparr>)"
proof -
  have h: "map_of (quantities active_cloud) ''normals'' = Some 1"
    "map_of (quantities active_cloud) ''missing'' = None" "trace active_cloud = []"
    by (simp_all add: example_defs)
  from getQuantity_result[of active_cloud "''normals''" 1 True] getQuantity_result[of active_cloud "''missing''" 1 False]
    getQuantity_result[of active_cloud "''missing''" 1 True] h
  show ?thesis by (simp add: prod_eq_iff)
qed

text \<open>
  C7. \<^verbatim>\<open>draw\<close> on a disabled structure does nothing. On an enabled one whose registry is
  well formed it builds the primary program when none is cached (the default program
  without an active quantity, the result of \<^verbatim>\<open>createProgram\<close> of the active quantity
  otherwise), sets the uniforms, issues one draw call, on the primary program, and then
  calls the \<^verbatim>\<open>draw\<close> hook of each quantity of the map; no hook runs before the draw call.
\<close>

theorem draw_render_pass:
  "(\<not> enabled s \<longrightarrow> draw s = Inr s) \<and>
   (enabled s \<and> well_formed s \<longrightarrow>
      draw s
        = Inr (s\<lparr>program := Some (primary_program s),
                 trace := trace s @ build_events s @ uniform_events s
                   @ [EvProgramDraw (primary_program s)]
                   @ map EvQuantityDraw (map snd (quantities s))\<rparr>) \<and>
      filter is_program_draw
        (build_events s @ uniform_events s @ [EvProgramDraw (primary_program s)]
           @ map EvQuantityDraw (map snd (quantities s)))
        = [EvProgramDraw (primary_program s)] \<and>
      filter is_quantity_draw (build_events s @ uniform_events s) = [])"
proof (intro conjI impI)
  assume "\<not> enabled s"
  then show "draw s = Inr s" by (simp add: draw_def)
next
  assume a: "enabled s \<and> well_formed s"
  then have en: "enabled s" and wf: "well_formed s" by simp_all
  note live = well_formed_registered_live[OF wf]
  show "draw s
        = Inr (s\<lparr>program := Some (primary_program s),
                 trace := trace s @ build_events s @ uniform_events s
                   @ [EvProgramDraw (primary_program s)]
                   @ map EvQuantityDraw (map snd (quantities s))\<rparr>)"
  proof (cases "activePointQuantity s")
    case None
    with en live show ?thesis
      by (cases "program s")
        (simp_all add: draw_def prepare_def setPointCloudUniforms_def emit_def
          draw_quantities_live primary_program_def build_events_def uniform_events_def)
  next
    case (Some q)
    with well_formed_active_live[OF wf] obtain obj where "heap s q = Some obj" by blast
    with Some en live show ?thesis
      by (cases "program s")
        (simp_all add: draw_def prepare_def setPointCloudUniforms_def emit_def deref_def
          draw_quantities_live primary_program_def build_events_def uniform_events_def)
  qed
next
  have "filter is_program_draw (map EvQuantityDraw qs) = []" for qs
    by (induction qs) simp_all
  then show "filter is_program_draw
        (build_events s @ uniform_events s @ [EvProgramDraw (primary_program s)]
           @ map EvQuantityDraw (map snd (quantities s)))
        = [EvProgramDraw (primary_program s)]"
    by (simp add: build_events_def uniform_events_def split: option.splits)
next
  show "filter is_quantity_draw (build_events s @ uniform_events s) = []"
    by (simp add: build_events_def uniform_events_def split: option.splits)
qed

text \<open>The cloud where \<open>colorByGroup\<close> is active, once disabled and once without a cached
  program.\<close>

theorem draw_render_pass_witness:
  "\<not> enabled (active_cloud\<lparr>enabled := False\<rparr>) \<and>
   draw (active_cloud\<lparr>enabled := False\<rparr>) = Inr (active_cloud\<lparr>enabled := False\<rparr>) \<and>
   enabled (active_cloud\<lparr>program := None\<rparr>) \<and> well_formed (active_cloud\<lparr>program := None\<rparr>) \<and>
   draw (active_cloud\<lparr>program := None\<rparr>)
     = Inr (active_cloud
             \<lparr>trace :=
                [EvCreateProgram 0,
                 EvSetMaterial (QuantityProgram 0) ''wax'',
                 EvSetAttribute (QuantityProgram 0) ''a_position'',
                 EvSetUniform (QuantityProgram 0) ''u_modelView'',
                 EvSetUniform (QuantityProgram 0) ''u_projMatrix'',
                 EvSetUniform (QuantityProgram 0) ''u_camZ'',
                 EvSetUniform (QuantityProgram 0) ''u_camUp'',
                 EvSetUniform (QuantityProgram 0) ''u_camRight'',
                 EvSetUniform (QuantityProgram 0) ''u_pointRadius'',
                 EvSetUniform (QuantityProgram 0) ''u_baseColor'',
                 EvSetProgramValues 0 (QuantityProgram 0),
                 EvProgramDraw (QuantityProgram 0),
                 EvQuantityDraw 0, EvQuantityDraw 1]\<rparr>)"
proof -
  have h: "\<not> enabled (active_cloud\<lparr>enabled := False\<rparr>)"
    "enabled (active_cloud\<lparr>program := None\<rparr>)"
    by (simp_all add: example_defs)
  have w: "well_formed (active_cloud\<lparr>program := None\<rparr>)"
    by (simp add: well_formed_def example_defs registered_def drawsPoints_def)
  from draw_render_pass[of "active_cloud\<lparr>enabled := False\<rparr>"] draw_render_pass[of "active_cloud\<lparr>program := None\<rparr>"] h w
  show ?thesis
    by (simp add: example_defs primary_program_def build_events_def uniform_events_def)
qed

text \<open>
  C10. \<^verbatim>\<open>clearActiveQuantity\<close> empties the slot of the primary program whether or not a
  quantity is active, sets the active reference to null and clears the \<^verbatim>\<open>enabled\<close> flag
  of the quantity that was active. Every other object and every other member (the map,
  the points, the pick program, the \<^verbatim>\<open>enabled\<close> flag of the structure, the transform, the
  colors, the radius) is as before.
\<close>

theorem clearActiveQuantity_frame:
  assumes "case activePointQuantity s of None \<Rightarrow> True | Some a \<Rightarrow> heap s a \<noteq> None"
  shows "\<exists>s'. clearActiveQuantity s = Inr s' \<and>
           program s' = None \<and> activePointQuantity s' = None \<and>
           (\<forall>a obj. activePointQuantity s = Some a \<and> heap s a = Some obj \<longrightarrow>
              heap s' a = Some (obj\<lparr>q_enabled := False\<rparr>)) \<and>
           (\<forall>a. activePointQuantity s \<noteq> Some a \<longrightarrow> heap s' a = heap s a) \<and>
           quantities s' = quantities s \<and> points s' = points s \<and>
           pickProgram s' = pickProgram s \<and> enabled s' = enabled s \<and>
           objectTransform s' = objectTransform s \<and>
           initialBaseColor s' = initialBaseColor s \<and> pointColor s' = pointColor s \<and>
           pointRadius s' = pointRadius s \<and>
           trace s' = trace s
             @ (case program s of None \<Rightarrow> [] | Some p \<Rightarrow> [EvDeleteProgram p])
             @ (case activePointQuantity s of
                  None \<Rightarrow> []
                | Some a \<Rightarrow> [EvSetEnabled a False, EvSetActive None])"
  using assms
  by (auto simp: clearActiveQuantity_def deleteProgram_def set_enabled_def deref_def emit_def
      Let_def split: option.splits)

text \<open>With an active quantity, and on the example cloud, where none is active and the
  default program is cached.\<close>

theorem clearActiveQuantity_frame_witness:
  "(case activePointQuantity active_cloud of None \<Rightarrow> True | Some a \<Rightarrow> heap active_cloud a \<noteq> None) \<and>
   (\<exists>s'. clearActiveQuantity active_cloud = Inr s' \<and>
      program s' = None \<and> activePointQuantity s' = None \<and>
      heap s' 0 = Some colorByGroup \<and> heap s' 1 = Some normals \<and>
      quantities s' = [(''colorByGroup'', 0), (''normals'', 1)] \<and>
      trace s' = [EvDeleteProgram (QuantityProgram 0), EvSetEnabled 0 False, EvSetActive None]) \<and>
   (case activePointQuantity example_cloud of None \<Rightarrow> True | Some a \<Rightarrow> heap example_cloud a \<noteq> None) \<and>
   (\<exists>s'. clearActiveQuantity example_cloud = Inr s' \<and>
      program example_cloud = Some DefaultProgram \<and> program s' = None \<and>
      trace s' = [EvDeleteProgram DefaultProgram])"
proof -
  have h: "case activePointQuantity active_cloud of None \<Rightarrow> True | Some a \<Rightarrow> heap active_cloud a \<noteq> None"
    "case activePointQuantity example_cloud of None \<Rightarrow> True | Some a \<Rightarrow> heap example_cloud a \<noteq> None"
    by (simp_all add: example_defs)
  from clearActiveQuantity_frame[OF h(1)] obtain s1 where s1: "clearActiveQuantity active_cloud = Inr s1"
    "program s1 = None" "activePointQuantity s1 = None"
    "\<forall>a obj. activePointQuantity active_cloud = Some a \<and> heap active_cloud a = Some obj \<longrightarrow>
              heap s1 a = Some (obj\<lparr>q_enabled := False\<rparr>)"
    "\<forall>a. activePointQuantity active_cloud \<noteq> Some a \<longrightarrow> heap s1 a = heap active_cloud a"
    "quantities s1 = quantities active_cloud"
    "trace s1 = trace active_cloud
             @ (case program active_cloud of None \<Rightarrow> [] | Some p \<Rightarrow> [EvDeleteProgram p])
             @ (case activePointQuantity active_cloud of
                  None \<Rightarrow> []
                | Some a \<Rightarrow> [EvSetEnabled a False, EvSetActive None])"
    by blast
  from clearActiveQuantity_frame[OF h(2)] obtain s2 where s2: "clearActiveQuantity example_cloud = Inr s2"
    "program s2 = None"
    "trace s2 = trace example_cloud
             @ (case program example_cloud of None \<Rightarrow> [] | Some p \<Rightarrow> [EvDeleteProgram p])
             @ (case activePointQuantity example_cloud of
                  None \<Rightarrow> []
                | Some a \<Rightarrow> [EvSetEnabled a False, EvSetActive None])"
    by blast
  have "heap s1 0 = Some colorByGroup" "heap s1 1 = Some normals"
    using s1(4,5) by (simp_all add: example_defs)
  moreover have "quantities s1 = [(''colorByGroup'', 0), (''normals'', 1)]"
    "trace s1 = [EvDeleteProgram (QuantityProgram 0), EvSetEnabled 0 False, EvSetActive None]"
    using s1(6,7) by (simp_all add: example_defs)
  moreover have "program example_cloud = Some DefaultProgram" "trace s2 = [EvDeleteProgram DefaultProgram]"
    using s2(3) by (simp_all add: example_defs)
  ultimately show ?thesis using h s1(1,2,3) s2(1,2) by simp
qed

end
